theory Spec2Isabelle
  imports Main "HOL-Library.AList"
begin

section \<open>PasswordDetector.py: strings\<close>

text \<open>
  The script handles file names, tool output and host replies as Python strings.
  They are modelled as \<^typ>\<open>string\<close>: lists of characters with code points below 256.
  White space, case mapping and line boundaries follow Python 3's \<open>str\<close> on that range
  (on the ASCII range Python 2's byte strings agree).
\<close>

abbreviation LF :: char where "LF \<equiv> CHR 0x0A"
abbreviation CR :: char where "CR \<equiv> CHR 0x0D"

text \<open>\<open>str.lower()\<close>: the upper-case letters are A-Z and, in Latin-1, 0xC0-0xD6 and
  0xD8-0xDE; each maps to the code point 32 above it.\<close>

definition lower_char :: "char \<Rightarrow> char" where
  "lower_char c =
     (let n = (of_char c :: nat) in
      if (65 \<le> n \<and> n \<le> 90) \<or> (192 \<le> n \<and> n \<le> 214) \<or> (216 \<le> n \<and> n \<le> 222)
      then char_of (n + 32) else c)"

definition lower :: "string \<Rightarrow> string" where
  "lower s = map lower_char s"

text \<open>\<open>str.strip()\<close> removes leading and trailing white space (\<open>str.isspace\<close>).\<close>

definition is_space :: "char \<Rightarrow> bool" where
  "is_space c =
     (let n = (of_char c :: nat) in
      (9 \<le> n \<and> n \<le> 13) \<or> (28 \<le> n \<and> n \<le> 32) \<or> n = 133 \<or> n = 160)"

definition strip :: "string \<Rightarrow> string" where
  "strip s = rev (dropWhile is_space (rev (dropWhile is_space s)))"

text \<open>\<open>s.startswith(p)\<close> and the substring test \<open>m in s\<close>.\<close>

fun startswith :: "string \<Rightarrow> string \<Rightarrow> bool" where
  "startswith s [] = True"
| "startswith [] (p # ps) = False"
| "startswith (c # cs) (p # ps) = (c = p \<and> startswith cs ps)"

fun py_in :: "string \<Rightarrow> string \<Rightarrow> bool" where
  "py_in m [] = (m = [])"
| "py_in m (c # cs) = (startswith (c # cs) m \<or> py_in m cs)"

text \<open>\<open>s.split(sep)\<close> for a one-character separator: \<open>''.split(',')\<close> is \<open>['']\<close>.\<close>

fun split_from :: "char \<Rightarrow> string \<Rightarrow> string \<Rightarrow> string list" where
  "split_from sep cur [] = [cur]"
| "split_from sep cur (c # cs) =
     (if c = sep then cur # split_from sep [] cs else split_from sep (cur @ [c]) cs)"

definition split :: "string \<Rightarrow> char \<Rightarrow> string list" where
  "split s sep = split_from sep [] s"

text \<open>\<open>str.splitlines()\<close>: a line ends at \<open>\n\<close>, \<open>\r\<close>, \<open>\r\n\<close> (one boundary),
  \<open>\x0b\<close>, \<open>\x0c\<close>, \<open>\x1c\<close>, \<open>\x1d\<close>, \<open>\x1e\<close> or \<open>\x85\<close>; the boundaries are dropped and
  a final boundary opens no empty last line.\<close>

definition is_linebreak :: "char \<Rightarrow> bool" where
  "is_linebreak c =
     (c = LF \<or> c = CR \<or> c = CHR 0x0B \<or> c = CHR 0x0C \<or> c = CHR 0x1C \<or> c = CHR 0x1D
      \<or> c = CHR 0x1E \<or> c = CHR 0x85)"

fun lines_from :: "string \<Rightarrow> string \<Rightarrow> string list" where
  "lines_from cur [] = (if cur = [] then [] else [cur])"
| "lines_from cur [c] = (if is_linebreak c then [cur] else [cur @ [c]])"
| "lines_from cur (c # d # cs) =
     (if c = CR \<and> d = LF then cur # lines_from [] cs
      else if is_linebreak c then cur # lines_from [] (d # cs)
      else lines_from (cur @ [c]) (d # cs))"

definition splitlines :: "string \<Rightarrow> string list" where
  "splitlines s = lines_from [] s"

section \<open>Classifying the tool's output: check_passwordstrings\<close>

text \<open>The hidden option \<open>PasswordStrings\<close> of the script, a comma separated list. The
  option \<open>verbose\<close> is \<open>False\<close> in the source, so \<open>check_verbose_logging()\<close> is false and
  the verbose branches print nothing; they are left out of the model.\<close>

definition PasswordStrings :: string where
  "PasswordStrings =
     ''*,wrong password,The specified password is incorrect,encrypted headers,Incorrect password for''"

text \<open>The loop \<open>for m_string in PasswordString\<close> of \<open>check_passwordstrings\<close>.\<close>

fun check_loop :: "string list \<Rightarrow> string \<Rightarrow> string \<Rightarrow> bool" where
  "check_loop [] outtext errtext = False"
| "check_loop (m # ms) outtext errtext =
     (let m_string = lower (strip m) in
      if m_string \<noteq> [] then
        (if py_in m_string (lower outtext) then True
         else if py_in m_string (lower errtext) then True
         else check_loop ms outtext errtext)
      else check_loop ms outtext errtext)"

text \<open>\<open>check_passwordstrings(outtext, errtext)\<close>, with the global marker list as its
  first argument.\<close>

definition check_passwordstrings :: "string \<Rightarrow> string \<Rightarrow> string \<Rightarrow> bool" where
  "check_passwordstrings markers outtext errtext =
     (let PasswordString = split markers (CHR '','') in
      if PasswordString = [] \<or> PasswordString = [[]] then False
      else check_loop PasswordString outtext errtext)"

text \<open>What the claims call a case-insensitive occurrence: the lower-cased marker is a
  contiguous part of the lower-cased text.\<close>

definition occurs_ci :: "string \<Rightarrow> string \<Rightarrow> bool" where
  "occurs_ci m t = (\<exists>pre post. lower t = pre @ lower m @ post)"

section \<open>The surroundings of one invocation\<close>

text \<open>Exceptions of the script. \<open>sys.exit(n)\<close> raises \<open>SystemExit(n)\<close>.\<close>

datatype exn =
  SystemExit int | KeyError | TypeError | ValueError | UnboundLocalError
  | IOError | OSError | HostError

text \<open>What the \<open>try\<close> block of \<open>contains_password\<close> gets from the inspection tool for one
  file: \<open>Ran out err rc\<close> when \<open>Popen\<close> and \<open>communicate()\<close> returned the decoded output
  and error text (the process ended with status \<open>rc\<close>, which the script never reads), or
  \<open>Failed e\<close> when an exception with message \<open>e\<close> was raised there (the executable could
  not be started, the option \<open>UnrarCmd\<close> is missing, the output could not be decoded).\<close>

datatype tool_result = Ran string string int | Failed string

text \<open>Everything the script reads from outside and cannot change: the environment
  variables, the job's directory, the inspection tool, the host's replies, the order in
  which Python iterates over a set in this run, and the entries of the temp folder that
  \<open>os.remove\<close> fails on.\<close>

record world =
  environ :: "string \<Rightarrow> string option"
  path_exists :: "string \<Rightarrow> bool"
  listdir :: "string \<Rightarrow> string list option"
  unrar_list :: "string \<Rightarrow> tool_result"
  http_get :: "string \<Rightarrow> string option"
  editqueue_ok :: "string \<Rightarrow> int \<Rightarrow> bool"
  set_order :: "string list \<Rightarrow> string list"
  undeletable :: "string \<Rightarrow> bool"

text \<open>What the script changes: the lines printed, the folder
  \<open>$NZBOP_TEMPDIR/PasswordDetector\<close> (\<open>None\<close> while it does not exist, else its entries by
  name with their contents, in the order \<open>os.listdir\<close> gives them), the paths handed to the
  inspection tool (one for every file for which \<open>contains_password\<close> entered its \<open>try\<close>
  block), the requests \<open>call_nzbget_direct\<close> sent to the host and the \<open>editqueue\<close>
  calls made, each in order.\<close>

record state =
  printed :: "string list"
  temp_folder :: "(string \<times> string) list option"
  probed :: "string list"
  queries :: "string list"
  edits :: "(string \<times> int) list"

definition py_print :: "string \<Rightarrow> state \<Rightarrow> state" where
  "py_print l s = s\<lparr>printed := printed s @ [l]\<rparr>"

text \<open>\<open>list(set(xs))\<close>: the elements of \<open>xs\<close> once each, in the order this run iterates
  over the set. Python fixes no such order; a \<open>set_order\<close> that is no rearrangement of the
  elements is replaced by the order of first occurrence, so that every world describes a
  possible run.\<close>

definition list_of_set :: "(string list \<Rightarrow> string list) \<Rightarrow> string list \<Rightarrow> string list" where
  "list_of_set ord xs =
     (let ys = ord (remdups xs) in
      if distinct ys \<and> set ys = set xs then ys else remdups xs)"

text \<open>\<open>list(set(xs) - set(ys))\<close>.\<close>

definition set_minus :: "world \<Rightarrow> string list \<Rightarrow> string list \<Rightarrow> string list" where
  "set_minus w xs ys = list_of_set (set_order w) (filter (\<lambda>x. x \<notin> set ys) xs)"

text \<open>\<open>os.path.basename\<close> and \<open>os.path.dirname\<close> (POSIX).\<close>

definition basename :: "string \<Rightarrow> string" where
  "basename p = rev (takeWhile (\<lambda>c. c \<noteq> CHR ''/'') (rev p))"

definition dirname :: "string \<Rightarrow> string" where
  "dirname p =
     (let head = rev (dropWhile (\<lambda>c. c \<noteq> CHR ''/'') (rev p)) in
      if list_all (\<lambda>c. c = CHR ''/'') head then head
      else rev (dropWhile (\<lambda>c. c = CHR ''/'') (rev head)))"

section \<open>The record of tested files: get_latest_file and save_tested\<close>

text \<open>The global \<open>tmp_file_name\<close> is \<open>$NZBOP_TEMPDIR/PasswordDetector/<job id>\<close>; the job
  id holds no \<open>/\<close>, so the file is the entry \<open>basename tmp_file_name\<close> of the temp folder
  and \<open>os.path.dirname(tmp_file_name)\<close> is that folder.\<close>

definition read_record :: "string \<Rightarrow> state \<Rightarrow> string option" where
  "read_record tmp_file_name s =
     (case temp_folder s of
        None \<Rightarrow> None
      | Some entries \<Rightarrow> map_of entries (basename tmp_file_name))"

text \<open>The \<open>except\<close> branch of \<open>get_latest_file\<close> up to its \<open>return\<close>: the folder is made
  when it is missing and the record is opened with mode \<open>"w"\<close>, which empties it. Making
  the folder and writing a file in an existing folder are taken to succeed.\<close>

definition create_record :: "string \<Rightarrow> state \<Rightarrow> state" where
  "create_record tmp_file_name s =
     (let s1 = (case temp_folder s of
                  None \<Rightarrow> py_print (''[DETAIL] Created folder '' @ dirname tmp_file_name)
                            (s\<lparr>temp_folder := Some []\<rparr>)
                | Some entries \<Rightarrow> s);
          entries = (case temp_folder s1 of None \<Rightarrow> [] | Some entries \<Rightarrow> entries)
      in py_print (''[DETAIL] Created temp file '' @ tmp_file_name)
           (s1\<lparr>temp_folder := Some (AList.update (basename tmp_file_name) [] entries)\<rparr>))"

text \<open>\<open>get_latest_file(dir_name)\<close>. The bare \<open>except\<close> is entered when the record cannot
  be opened and also when \<open>os.listdir\<close> fails; the \<open>os.listdir\<close> of its last line may
  fail again, and that exception leaves the function.\<close>

definition get_latest_file ::
  "world \<Rightarrow> string \<Rightarrow> string \<Rightarrow> state \<Rightarrow> (exn + string list) \<times> state" where
  "get_latest_file w tmp_file_name dir_name s =
     (case (read_record tmp_file_name s, listdir w dir_name) of
        (Some content, Some files) \<Rightarrow> (Inr (set_minus w files (splitlines content)), s)
      | _ \<Rightarrow>
        (let s' = create_record tmp_file_name s in
         case listdir w dir_name of
           None \<Rightarrow> (Inl OSError, s')
         | Some files \<Rightarrow> (Inr files, s')))"

text \<open>\<open>save_tested(data)\<close>: mode \<open>"a"\<close> creates the file when it is missing and fails
  when its folder is.\<close>

definition save_tested :: "string \<Rightarrow> string \<Rightarrow> state \<Rightarrow> (exn + unit) \<times> state" where
  "save_tested tmp_file_name data s =
     (case temp_folder s of
        None \<Rightarrow> (Inl IOError, s)
      | Some entries \<Rightarrow>
          (let old = (case map_of entries (basename tmp_file_name) of
                        None \<Rightarrow> [] | Some content \<Rightarrow> content)
           in (Inr (),
               s\<lparr>temp_folder :=
                    Some (AList.update (basename tmp_file_name) (old @ data) entries)\<rparr>)))"

section \<open>Scanning a directory: contains_password\<close>

text \<open>The \<open>for\<close> loop of \<open>contains_password\<close> over the remaining files, with the string
  \<open>tested\<close> built so far. The result is \<open>True\<close> when the loop left the function by
  \<open>return True\<close>, and the string \<open>tested\<close> at that moment.\<close>

fun scan ::
  "world \<Rightarrow> string \<Rightarrow> string list \<Rightarrow> string \<Rightarrow> state \<Rightarrow> (bool \<times> string) \<times> state" where
  "scan w dir_name [] tested s = ((False, tested), s)"
| "scan w dir_name (file # files) tested s =
     (if \<not> py_in ''tmp'' file then
        (let s1 = s\<lparr>probed := probed s @ [dir_name @ ''/'' @ file]\<rparr> in
         case unrar_list w (dir_name @ ''/'' @ file) of
           Ran out err rc \<Rightarrow>
             if check_passwordstrings PasswordStrings out err then ((True, tested), s1)
             else scan w dir_name files (tested @ file @ [LF]) s1
         | Failed e \<Rightarrow>
             scan w dir_name files (tested @ file @ [LF])
               (py_print (''[ERROR] Failed '' @ file @ '': '' @ e) s1))
      else scan w dir_name files (tested @ file @ [LF]) s)"

text \<open>\<open>contains_password(dir_name)\<close>: \<open>True\<close> when it returned \<open>True\<close>, \<open>False\<close> when it
  ran to its end (and returned \<open>None\<close>).\<close>

definition contains_password ::
  "world \<Rightarrow> string \<Rightarrow> string \<Rightarrow> state \<Rightarrow> (exn + bool) \<times> state" where
  "contains_password w tmp_file_name dir_name s =
     (case get_latest_file w tmp_file_name dir_name s of
        (Inl e, s1) \<Rightarrow> (Inl e, s1)
      | (Inr files, s1) \<Rightarrow>
          (case scan w dir_name files [] s1 of
             ((True, tested), s2) \<Rightarrow> (Inr True, s2)
           | ((False, tested), s2) \<Rightarrow>
               (case save_tested tmp_file_name tested s2 of
                  (Inl e, s3) \<Rightarrow> (Inl e, s3)
                | (Inr u, s3) \<Rightarrow> (Inr False, s3))))"


section \<open>Numbers in text\<close>

text \<open>\<open>int(s)\<close> for a text \<open>s\<close>: white space around it is dropped, a sign may come first,
  then decimal digits and nothing else; any other text raises \<open>ValueError\<close> (\<open>None\<close>
  here). The underscores that Python 3.6 and later accept between digits are not
  modelled: they count as other text. \<open>str(i)\<close> and \<open>'%i' % i\<close> print an integer in
  decimal.\<close>

definition is_digit :: "char \<Rightarrow> bool" where
  "is_digit c = (let n = (of_char c :: nat) in 48 \<le> n \<and> n \<le> 57)"

definition digits_value :: "string \<Rightarrow> nat" where
  "digits_value ds = foldl (\<lambda>a c. 10 * a + (of_char c - 48)) 0 ds"

definition py_int :: "string \<Rightarrow> int option" where
  "py_int s =
     (let t = strip s;
          negative = (t \<noteq> [] \<and> hd t = CHR ''-'');
          ds = (if t \<noteq> [] \<and> (hd t = CHR ''-'' \<or> hd t = CHR ''+'') then tl t else t)
      in if ds \<noteq> [] \<and> list_all is_digit ds
         then Some (if negative then - int (digits_value ds) else int (digits_value ds))
         else None)"

fun digits_of :: "nat \<Rightarrow> string" where
  "digits_of n =
     (if n < 10 then [char_of (48 + n)] else digits_of (n div 10) @ [char_of (48 + n mod 10)])"

definition py_str :: "int \<Rightarrow> string" where
  "py_str i = (if i < 0 then CHR ''-'' # digits_of (nat (- i)) else digits_of (nat i))"

section \<open>Talking to the host\<close>

text \<open>\<open>call_nzbget_direct(url_command)\<close> reads the four connection options from the
  environment and raises \<open>KeyError\<close> when one is missing; nothing is sent then. Otherwise
  it sends the request, which is noted in \<open>queries\<close>; a failed request and a reply that
  is not ok give the empty text.\<close>

definition connection_known :: "world \<Rightarrow> bool" where
  "connection_known w =
     (environ w ''NZBOP_CONTROLIP'' \<noteq> None \<and> environ w ''NZBOP_CONTROLPORT'' \<noteq> None \<and>
      environ w ''NZBOP_CONTROLUSERNAME'' \<noteq> None \<and> environ w ''NZBOP_CONTROLPASSWORD'' \<noteq> None)"

definition call_nzbget_direct :: "world \<Rightarrow> string \<Rightarrow> state \<Rightarrow> (exn + string) \<times> state" where
  "call_nzbget_direct w url_command s =
     (if connection_known w
      then (Inr (case http_get w url_command of None \<Rightarrow> [] | Some content \<Rightarrow> content),
            s\<lparr>queries := queries s @ [url_command]\<rparr>)
      else (Inl KeyError, s))"

text \<open>\<open>connect_to_nzbget()\<close> followed by \<open>nzbget.editqueue(command, 0, '', [id])\<close>: the
  connection options are read first, then the call is made and noted in \<open>edits\<close>; a call
  the host does not carry out raises.\<close>

definition editqueue :: "world \<Rightarrow> string \<Rightarrow> int \<Rightarrow> state \<Rightarrow> (exn + unit) \<times> state" where
  "editqueue w command i s =
     (if connection_known w
      then (let s1 = s\<lparr>edits := edits s @ [(command, i)]\<rparr> in
            if editqueue_ok w command i then (Inr (), s1) else (Inl HostError, s1))
      else (Inl KeyError, s))"

text \<open>\<open>pause_nzb(NZBID)\<close>: the connection first, then \<open>int(NZBID)\<close>, then the call.\<close>

definition pause_nzb :: "world \<Rightarrow> string option \<Rightarrow> state \<Rightarrow> (exn + unit) \<times> state" where
  "pause_nzb w NZBID s =
     (if connection_known w
      then (case NZBID of
              None \<Rightarrow> (Inl TypeError, s)
            | Some idtext \<Rightarrow>
                (case py_int idtext of
                   None \<Rightarrow> (Inl ValueError, s)
                 | Some i \<Rightarrow> editqueue w ''GroupPause'' i s))
      else (Inl KeyError, s))"

section \<open>Choosing the part to move to the top: sort_inner_files\<close>

text \<open>\<open>regex1 = .*\.part(\d+)\.rar\<close> and \<open>regex2 = .*\.r(\d+)\<close>, both with \<open>re.IGNORECASE\<close>
  and used with \<open>match\<close>: the pattern is anchored at the start of the name and not at its
  end. The greedy \<open>.*\<close> takes the last place where the rest of the pattern matches, and
  does not pass a newline. The result is the text of group 1.\<close>

definition part_at :: "string \<Rightarrow> string option" where
  "part_at s =
     (let ds = takeWhile is_digit (drop 5 s); rest = dropWhile is_digit (drop 5 s) in
      if startswith (lower s) ''.part'' \<and> ds \<noteq> [] \<and> startswith (lower rest) ''.rar''
      then Some ds else None)"

definition r_at :: "string \<Rightarrow> string option" where
  "r_at s =
     (let ds = takeWhile is_digit (drop 2 s) in
      if startswith (lower s) ''.r'' \<and> ds \<noteq> [] then Some ds else None)"

fun last_match :: "(string \<Rightarrow> string option) \<Rightarrow> string \<Rightarrow> string option" where
  "last_match at [] = at []"
| "last_match at (c # cs) =
     (case (if c = LF then None else last_match at cs) of
        Some g \<Rightarrow> Some g
      | None \<Rightarrow> at (c # cs))"

definition regex1 :: "string \<Rightarrow> string option" where
  "regex1 cur_name = last_match part_at cur_name"

definition regex2 :: "string \<Rightarrow> string option" where
  "regex2 cur_name = last_match r_at cur_name"

text \<open>Python's \<open>not file_num\<close> and \<open>if file_id:\<close>: \<open>None\<close> and 0 count as false.\<close>

definition truthy :: "'a::zero option \<Rightarrow> bool" where
  "truthy v = (case v of None \<Rightarrow> False | Some n \<Rightarrow> n \<noteq> 0)"

text \<open>The loop over the lines of the host's reply. \<open>cur_id\<close> is unbound (\<open>None\<close>) until
  an \<open>"ID"\<close> line was read; the triple is \<open>file_num\<close>, \<open>file_id\<close>, \<open>file_name\<close>.\<close>

type_synonym chosen = "nat option \<times> int option \<times> string option"

fun listing_loop :: "string list \<Rightarrow> int option \<Rightarrow> chosen \<Rightarrow> exn + chosen" where
  "listing_loop [] cur_id best = Inr best"
| "listing_loop (line # ls) cur_id (file_num, file_id, file_name) =
     (case (if startswith line ''\"ID\" : ''
            then (case py_int (drop 7 (take (length line - 1) line)) of
                    None \<Rightarrow> Inl ValueError
                  | Some i \<Rightarrow> Inr (Some i))
            else Inr cur_id) of
        Inl e \<Rightarrow> Inl e
      | Inr cur_id' \<Rightarrow>
          if startswith line ''\"Filename\" : \"'' then
            (let cur_name = drop 14 (take (length line - 2) line) in
             case (case regex1 cur_name of Some g \<Rightarrow> Some g | None \<Rightarrow> regex2 cur_name) of
               None \<Rightarrow> listing_loop ls cur_id' (file_num, file_id, file_name)
             | Some g \<Rightarrow>
                 (let cur_num = digits_value g in
                  if \<not> truthy file_num \<or> (case file_num of None \<Rightarrow> False | Some n \<Rightarrow> n < cur_num)
                  then (case cur_id' of
                          None \<Rightarrow> Inl UnboundLocalError
                        | Some i \<Rightarrow> listing_loop ls cur_id' (Some cur_num, Some i, Some cur_name))
                  else listing_loop ls cur_id' (file_num, file_id, file_name)))
          else listing_loop ls cur_id' (file_num, file_id, file_name))"

text \<open>\<open>sort_inner_files()\<close>.\<close>

definition sort_inner_files :: "world \<Rightarrow> state \<Rightarrow> (exn + unit) \<times> state" where
  "sort_inner_files w s =
     (case environ w ''NZBNA_NZBID'' of
        None \<Rightarrow> (Inl TypeError, s)
      | Some idtext \<Rightarrow>
          (case py_int idtext of
             None \<Rightarrow> (Inl ValueError, s)
           | Some nzb_id \<Rightarrow>
               (case call_nzbget_direct w (''listfiles?1=0&2=0&3='' @ py_str nzb_id) s of
                  (Inl e, s1) \<Rightarrow> (Inl e, s1)
                | (Inr data, s1) \<Rightarrow>
                    (case listing_loop (splitlines data) None (None, None, None) of
                       Inl e \<Rightarrow> (Inl e, s1)
                     | Inr (file_num, file_id, file_name) \<Rightarrow>
                         if truthy file_id then
                           editqueue w ''FileMoveTop'' (case file_id of None \<Rightarrow> 0 | Some i \<Rightarrow> i)
                             (py_print (''[INFO] Moving last rar-file to the top: '' @
                                (case file_name of None \<Rightarrow> ''None'' | Some n \<Rightarrow> n)) s1)
                         else (Inr (), py_print
                                 ''[INFO] Skipping sorting since could not find any rar-files'' s1)))))"

section \<open>Removing old records: clean_up\<close>

text \<open>The loop over the lines of the host's list of groups, collecting \<open>nzbids\<close>.\<close>

fun nzbid_loop :: "string list \<Rightarrow> string list \<Rightarrow> exn + string list" where
  "nzbid_loop [] nzbids = Inr nzbids"
| "nzbid_loop (line # ls) nzbids =
     (if startswith line ''\"NZBID\" : '' then
        (case py_int (drop 10 (take (length line - 1) line)) of
           None \<Rightarrow> Inl ValueError
         | Some cur_id \<Rightarrow> nzbid_loop ls (nzbids @ [py_str cur_id]))
      else nzbid_loop ls nzbids)"

text \<open>\<open>old_temp_files\<close> as the script computes it; \<open>nzb_id\<close> is \<open>None\<close> when
  \<open>NZBPP_NZBID\<close> is not set, and \<open>None\<close> is in no list of names.\<close>

definition old_temp_files ::
  "world \<Rightarrow> string list \<Rightarrow> string list \<Rightarrow> string option \<Rightarrow> string list" where
  "old_temp_files w files nzbids nzb_id =
     (let old = set_minus w files nzbids in
      case nzb_id of
        None \<Rightarrow> old
      | Some i \<Rightarrow> if i \<in> set files \<and> i \<notin> set old then old @ [i] else old)"

text \<open>The loop \<open>for temp_id in old_temp_files\<close>. \<open>os.remove\<close> fails on a name that is
  not in the folder and on a name the world marks undeletable.\<close>

fun remove_all :: "world \<Rightarrow> string \<Rightarrow> string list \<Rightarrow> state \<Rightarrow> state" where
  "remove_all w temp_dir [] s = s"
| "remove_all w temp_dir (temp_id # ids) s =
     (let temp_file = temp_dir @ ''/'' @ temp_id;
          s1 = py_print (''[DETAIL] Removing temp file '' @ temp_file) s;
          entries = (case temp_folder s1 of None \<Rightarrow> [] | Some entries \<Rightarrow> entries)
      in if map_of entries temp_id \<noteq> None \<and> \<not> undeletable w temp_id
         then remove_all w temp_dir ids
                (s1\<lparr>temp_folder := Some (AList.delete temp_id entries)\<rparr>)
         else remove_all w temp_dir ids
                (py_print (''[ERROR] Could not remove temp file '' @ temp_file) s1))"

text \<open>\<open>clean_up()\<close>.\<close>

definition clean_up :: "world \<Rightarrow> state \<Rightarrow> (exn + unit) \<times> state" where
  "clean_up w s =
     (let nzb_id = environ w ''NZBPP_NZBID'' in
      case environ w ''NZBOP_TEMPDIR'' of
        None \<Rightarrow> (Inl TypeError, s)
      | Some tempdir \<Rightarrow>
          (let temp_dir = tempdir @ ''/PasswordDetector'' in
           case temp_folder s of
             None \<Rightarrow> (Inr (), s)
           | Some entries \<Rightarrow>
               (let files = map fst entries in
                if 1 < length files then
                  (case call_nzbget_direct w ''listgroups?1=0'' s of
                     (Inl e, s1) \<Rightarrow> (Inl e, s1)
                   | (Inr data, s1) \<Rightarrow>
                       (case nzbid_loop (splitlines data) [] of
                          Inl e \<Rightarrow> (Inl e, s1)
                        | Inr nzbids \<Rightarrow>
                            (Inr (), remove_all w temp_dir
                                       (old_temp_files w files nzbids nzb_id) s1)))
                else (Inr (), remove_all w temp_dir (old_temp_files w files [] nzb_id) s))))"

section \<open>The script: start_check and main\<close>

definition POSTPROCESS_SUCCESS :: int where "POSTPROCESS_SUCCESS = 93"
definition POSTPROCESS_NONE :: int where "POSTPROCESS_NONE = 95"
definition POSTPROCESS_ERROR :: int where "POSTPROCESS_ERROR = 94"

text \<open>\<open>clean_up()\<close> followed by \<open>sys.exit(code)\<close>.\<close>

definition clean_up_and_exit :: "world \<Rightarrow> int \<Rightarrow> state \<Rightarrow> (exn + unit) \<times> state" where
  "clean_up_and_exit w code s =
     (case clean_up w s of
        (Inl e, s1) \<Rightarrow> (Inl e, s1)
      | (Inr u, s1) \<Rightarrow> (Inl (SystemExit code), s1))"

text \<open>\<open>start_check()\<close>: it returns (\<open>Inr\<close>) only when no check ended the script.\<close>

definition start_check :: "world \<Rightarrow> state \<Rightarrow> (exn + unit) \<times> state" where
  "start_check w s =
     (if \<not> (environ w ''NZBNA_EVENT'' \<noteq> None \<or> environ w ''NZBPP_DIRECTORY'' \<noteq> None)
         \<or> environ w ''NZBOP_ARTICLECACHE'' = None
      then (Inl (SystemExit 1),
            py_print ''This script is supposed to be called from nzbget (14.0 or later).''
              (py_print ''*** NZBGet queue script ***'' s))
      else if environ w ''NZBNA_EVENT'' \<notin>
                {Some ''NZB_ADDED'', Some ''FILE_DOWNLOADED'', Some ''NZB_DOWNLOADED'', None}
      then (Inl (SystemExit 0), s)
      else if environ w ''NZBPP_STATUS'' = Some ''FAILURE/BAD''
      then clean_up_and_exit w POSTPROCESS_SUCCESS
             (if environ w ''NZBPR_PASSWORDDETECTOR_HASPASSWORD'' = Some ''yes''
              then py_print ''[WARNING] Download is password protected'' s else s)
      else if environ w ''NZBPR_PASSWORDDETECTOR_HASPASSWORD'' = Some ''yes''
      then (let s1 = py_print ''[DETAIL] Password previously found, skipping detection'' s in
            if environ w ''NZBPP_DIRECTORY'' \<noteq> None
            then clean_up_and_exit w POSTPROCESS_SUCCESS s1
            else (Inl (SystemExit POSTPROCESS_SUCCESS), s1))
      else if environ w ''NZBPR_*Unpack:Password'' \<noteq> None
      then (let s1 = py_print ''[DETAIL] Password previously defined, skipping detection'' s in
            if environ w ''NZBPP_DIRECTORY'' \<noteq> None
            then clean_up_and_exit w POSTPROCESS_SUCCESS s1
            else (Inl (SystemExit POSTPROCESS_SUCCESS), s1))
      else if (case environ w ''NZBPP_DIRECTORY'' of
                 None \<Rightarrow> False | Some dir \<Rightarrow> \<not> path_exists w dir)
      then clean_up_and_exit w POSTPROCESS_NONE
             (py_print ''Destination directory doesn't exist, exiting'' s)
      else if environ w ''NZBPP_TOTALSTATUS'' = Some ''FAILURE''
      then clean_up_and_exit w POSTPROCESS_NONE s
      else if environ w ''NZBPO_PASSACTION'' = None
      then (Inl (SystemExit POSTPROCESS_ERROR),
            py_print (''[ERROR] Option PASSACTION is missing in configuration file. '' @
                      ''Please check script settings'') s)
      else (Inr (), s))"

text \<open>Lines 433 to 443 of \<open>main\<close>: the files are sorted when the job was added and on a
  downloaded file of a job that is not sorted yet.\<close>

definition sorting_step :: "world \<Rightarrow> string \<Rightarrow> state \<Rightarrow> (exn + unit) \<times> state" where
  "sorting_step w NzbName s =
     (let event = environ w ''NZBNA_EVENT''; sorted = environ w ''NZBPR_FAKEDETECTOR_SORTED'' in
      if event = Some ''NZB_ADDED'' \<or> (event = Some ''FILE_DOWNLOADED'' \<and> sorted \<noteq> Some ''yes'')
      then
        (case (if sorted \<noteq> Some ''yes''
               then (case sort_inner_files w
                            (py_print (''[INFO] Sorting inner files for earlier fake detection for ''
                                       @ NzbName) s) of
                       (Inl e, s1) \<Rightarrow> (Inl e, s1)
                     | (Inr u, s1) \<Rightarrow> (Inr (), py_print ''[NZB] NZBPR_FAKEDETECTOR_SORTED=yes'' s1))
               else (Inr (), s)) of
           (Inl e, s1) \<Rightarrow> (Inl e, s1)
         | (Inr u, s1) \<Rightarrow>
             if event = Some ''NZB_ADDED'' then (Inl (SystemExit POSTPROCESS_NONE), s1)
             else (Inr (), s1))
      else (Inr (), s))"

text \<open>The end of \<open>main\<close>: the last line printed and \<open>clean_up()\<close> in post-processing.\<close>

definition finish :: "world \<Rightarrow> string \<Rightarrow> string \<Rightarrow> state \<Rightarrow> (exn + unit) \<times> state" where
  "finish w Prefix NzbName s =
     (let s1 = py_print (''[DETAIL] Detecting completed for '' @ NzbName) s in
      if Prefix = ''NZBPP_'' then clean_up w s1 else (Inr (), s1))"

text \<open>Lines 445 to 484 of \<open>main\<close>: the detection and what follows from its answer.\<close>

definition detect ::
  "world \<Rightarrow> string \<Rightarrow> string \<Rightarrow> string \<Rightarrow> string \<Rightarrow> state \<Rightarrow> (exn + unit) \<times> state" where
  "detect w Prefix Directory NzbName tmp_file_name s =
     (case contains_password w tmp_file_name Directory
             (py_print (''[DETAIL] Detecting password for '' @ NzbName) s) of
        (Inl e, s1) \<Rightarrow> (Inl e, s1)
      | (Inr True, s1) \<Rightarrow>
          (let s2 = py_print ''[NZB] NZBPR_PASSWORDDETECTOR_HASPASSWORD=yes''
                      (py_print (''[WARNING] Password found in '' @ NzbName) s1) in
           case environ w ''NZBPO_PASSACTION'' of
             None \<Rightarrow> (Inl KeyError, s2)
           | Some action \<Rightarrow>
               (case (if action = ''Pause''
                      then (case pause_nzb w (environ w (Prefix @ ''NZBID'')) s2 of
                              (Inl e, s3) \<Rightarrow> (Inl e, s3)
                            | (Inr u, s3) \<Rightarrow> (Inr (), py_print (''[DETAIL] Paused '' @ NzbName) s3))
                      else (Inr (), s2)) of
                  (Inl e, s3) \<Rightarrow> (Inl e, s3)
                | (Inr u, s3) \<Rightarrow>
                    finish w Prefix NzbName
                      (if action = ''Mark Bad''
                       then py_print (''[DETAIL] Marked bad '' @ NzbName)
                              (py_print ''[NZB] MARK=BAD'' s3)
                       else s3)))
      | (Inr False, s1) \<Rightarrow>
          finish w Prefix NzbName
            (if environ w ''NZBPR_PASSWORDDETECTOR_HASPASSWORD'' = Some ''yes''
             then py_print ''[NZB] NZBPR_PASSWORDDETECTOR_HASPASSWORD='' s1 else s1))"

text \<open>\<open>main()\<close>. A missing \<open>CATEGORY\<close>, \<open>DIRECTORY\<close> or \<open>NZBNAME\<close> raises \<open>KeyError\<close>, a
  missing \<open>NZBOP_TEMPDIR\<close> or job id \<open>TypeError\<close>.\<close>

definition main :: "world \<Rightarrow> state \<Rightarrow> (exn + unit) \<times> state" where
  "main w s =
     (case start_check w s of
        (Inl e, s1) \<Rightarrow> (Inl e, s1)
      | (Inr u, s1) \<Rightarrow>
          (let Prefix = (if environ w ''NZBNA_EVENT'' \<noteq> None then ''NZBNA_'' else ''NZBPP_'') in
           case (environ w (Prefix @ ''CATEGORY''), environ w (Prefix @ ''DIRECTORY''),
                 environ w (Prefix @ ''NZBNAME'')) of
             (Some Category, Some Directory, Some NzbName) \<Rightarrow>
               (case (environ w ''NZBOP_TEMPDIR'', environ w (Prefix @ ''NZBID'')) of
                  (Some tempdir, Some nzbid) \<Rightarrow>
                    (case sorting_step w NzbName s1 of
                       (Inl e, s2) \<Rightarrow> (Inl e, s2)
                     | (Inr u, s2) \<Rightarrow>
                         detect w Prefix Directory NzbName
                           (tempdir @ ''/PasswordDetector/'' @ nzbid) s2)
                | _ \<Rightarrow> (Inl TypeError, s1))
           | _ \<Rightarrow> (Inl KeyError, s1)))"

text \<open>The whole script: \<open>main()\<close> and then \<open>sys.exit(POSTPROCESS_SUCCESS)\<close>.\<close>

definition script :: "world \<Rightarrow> state \<Rightarrow> exn \<times> state" where
  "script w s =
     (case main w s of
        (Inl e, s1) \<Rightarrow> (e, s1)
      | (Inr u, s1) \<Rightarrow> (SystemExit POSTPROCESS_SUCCESS, s1))"

section \<open>Notions used to state the properties of the scan\<close>

text \<open>A file is positive when \<open>contains_password\<close> returns \<open>True\<close> at it: it is handed
  to the inspection tool and \<open>check_passwordstrings\<close> accepts the captured text.\<close>

definition positive :: "world \<Rightarrow> string \<Rightarrow> string \<Rightarrow> bool" where
  "positive w dir_name file =
     (\<not> py_in ''tmp'' file \<and>
      (case unrar_list w (dir_name @ ''/'' @ file) of
         Ran out err rc \<Rightarrow> check_passwordstrings PasswordStrings out err
       | Failed e \<Rightarrow> False))"

text \<open>The \<open>[ERROR]\<close> lines printed for a list of visited files.\<close>

definition failure_lines :: "world \<Rightarrow> string \<Rightarrow> string list \<Rightarrow> string list" where
  "failure_lines w dir_name files =
     concat (map (\<lambda>file.
        if py_in ''tmp'' file then []
        else (case unrar_list w (dir_name @ ''/'' @ file) of
                Ran out err rc \<Rightarrow> []
              | Failed e \<Rightarrow> [''[ERROR] Failed '' @ file @ '': '' @ e])) files)"

text \<open>The string \<open>tested\<close> built for a list of visited files: each name and a newline.\<close>

definition record_data :: "string list \<Rightarrow> string" where
  "record_data files = concat (map (\<lambda>file. file @ [LF]) files)"

text \<open>The paths handed to the inspection tool for a list of visited files.\<close>

definition handed_over :: "string \<Rightarrow> string list \<Rightarrow> string list" where
  "handed_over dir_name files =
     map (\<lambda>file. dir_name @ ''/'' @ file) (filter (\<lambda>file. \<not> py_in ''tmp'' file) files)"

text \<open>The files of a listing up to its first positive file, that one left out.\<close>

definition before_positive :: "world \<Rightarrow> string \<Rightarrow> string list \<Rightarrow> string list" where
  "before_positive w dir_name files = takeWhile (\<lambda>file. \<not> positive w dir_name file) files"

text \<open>The list \<open>get_latest_file\<close> returns for a directory listing: the listing itself
  while the job has no record, and afterwards the listed files that are not in the
  record, in the order this run iterates over the set.\<close>

definition files_to_visit :: "world \<Rightarrow> string \<Rightarrow> state \<Rightarrow> string list \<Rightarrow> string list" where
  "files_to_visit w tmp_file_name s listing =
     (case read_record tmp_file_name s of
        None \<Rightarrow> listing
      | Some content \<Rightarrow> set_minus w listing (splitlines content))"

text \<open>A name without a line boundary, and a record that is empty or ends with a newline,
  as every record does that the script created and appended to.\<close>

definition plain_name :: "string \<Rightarrow> bool" where
  "plain_name f = (\<not> list_ex is_linebreak f)"

definition whole_lines :: "string \<Rightarrow> bool" where
  "whole_lines c = (c = [] \<or> last c = LF)"

text \<open>The job ids \<open>clean_up\<close> reads from the host's list of groups in this world, and
  the lines its removal loop prints.\<close>

definition reported :: "world \<Rightarrow> exn + string list" where
  "reported w =
     nzbid_loop (splitlines (case http_get w ''listgroups?1=0'' of None \<Rightarrow> [] | Some c \<Rightarrow> c)) []"

definition removing_line :: "string \<Rightarrow> bool" where
  "removing_line l =
     (startswith l ''[DETAIL] Removing temp file '' \<or>
      startswith l ''[ERROR] Could not remove temp file '')"

section \<open>Example runs\<close>

text \<open>A first invocation: nothing printed yet and no temp folder.\<close>

definition fresh :: state where
  "fresh = \<lparr>printed = [], temp_folder = None, probed = [], queries = [], edits = []\<rparr>"

text \<open>A world with no environment variables, no directories, a tool that lists every
  archive without complaint and a host that does not answer.\<close>

definition bare :: world where
  "bare = \<lparr>environ = (\<lambda>k. None), path_exists = (\<lambda>p. False), listdir = (\<lambda>d. None),
            unrar_list = (\<lambda>p. Ran ''Archive: 1 file'' [] 0), http_get = (\<lambda>c. None),
            editqueue_ok = (\<lambda>c i. True), set_order = (\<lambda>xs. xs),
            undeletable = (\<lambda>n. False)\<rparr>"

text \<open>The job of the end-to-end example: two untested parts, and the tool reports a
  wrong password in its error text for the first.\<close>

definition two_parts :: world where
  "two_parts = bare\<lparr>
     listdir := (\<lambda>d. if d = ''/dl/job'' then Some [''a.part01.rar'', ''a.part02.rar''] else None),
     unrar_list := (\<lambda>p. if p = ''/dl/job/a.part01.rar''
                          then Ran [] ''Incorrect password for a.part01.rar'' 3
                          else Ran ''Archive: 1 file'' [] 0)\<rparr>"

text \<open>The same job in a run that iterates over sets in reverse.\<close>

definition two_parts_reversed :: world where
  "two_parts_reversed = two_parts\<lparr>set_order := rev\<rparr>"

text \<open>A job with a temporary file, a clean part, a part the tool cannot be started on, a
  protected part and one more part.\<close>

definition five_files :: world where
  "five_files = bare\<lparr>
     listdir := (\<lambda>d. if d = ''/dl/job''
        then Some [''a.rar.tmp'', ''a.part01.rar'', ''a.part02.rar'', ''a.part03.rar'', ''a.part04.rar'']
        else None),
     unrar_list := (\<lambda>p. if p = ''/dl/job/a.part02.rar'' then Failed ''No such file or directory''
                          else if p = ''/dl/job/a.part03.rar''
                          then Ran ''Encrypted headers'' [] 0
                          else Ran ''Archive: 1 file'' [] 0)\<rparr>"

text \<open>A job whose files are all clean: a temporary file, a part the tool leaves with
  status 10 and a part the tool cannot be started on.\<close>

definition clean_job :: world where
  "clean_job = bare\<lparr>
     listdir := (\<lambda>d. if d = ''/dl/job'' then Some [''a.rar.tmp'', ''a.rar'', ''b.rar''] else None),
     unrar_list := (\<lambda>p. if p = ''/dl/job/a.rar'' then Ran [] ''a.rar is not RAR archive'' 10
                          else Failed ''No such file or directory'')\<rparr>"

text \<open>A job with a temporary file in front of a protected archive.\<close>

definition tmp_then_protected :: world where
  "tmp_then_protected = bare\<lparr>
     listdir := (\<lambda>d. if d = ''/dl/job'' then Some [''video.tmp'', ''a.rar''] else None),
     unrar_list := (\<lambda>p. if p = ''/dl/job/a.rar'' then Ran [] ''wrong password'' 3
                          else Ran ''Archive: 1 file'' [] 0)\<rparr>"

text \<open>A job directory with two archives, a run that iterates over sets in reverse, and a
  temp folder whose record for job 7 already holds one name.\<close>

definition two_archives :: world where
  "two_archives = bare\<lparr>
     listdir := (\<lambda>d. if d = ''/dl/job'' then Some [''a.rar'', ''b.rar''] else None),
     set_order := rev\<rparr>"

definition one_recorded :: state where
  "one_recorded = fresh\<lparr>temp_folder := Some [(''7'', ''x.rar'' @ [LF])]\<rparr>"

text \<open>A job directory with one file whose name holds a newline, and an empty temp
  folder.\<close>

definition newline_name :: world where
  "newline_name = bare\<lparr>
     listdir := (\<lambda>d. if d = ''/dl/job'' then Some [''a'' @ [LF] @ ''b.rar''] else None)\<rparr>"

definition empty_folder :: state where
  "empty_folder = fresh\<lparr>temp_folder := Some []\<rparr>"

text \<open>The host's replies as NZBGet prints them, one field on a line: the files of a job
  with their ids, and the jobs in the queue.\<close>

definition listfiles_reply :: "(int \<times> string) list \<Rightarrow> string" where
  "listfiles_reply fs =
     concat (map (\<lambda>(i, n). ''\"ID\" : '' @ py_str i @ '','' @ [LF] @
                             ''\"Filename\" : \"'' @ n @ ''\",'' @ [LF]) fs)"

definition listgroups_reply :: "int list \<Rightarrow> string" where
  "listgroups_reply ids = concat (map (\<lambda>i. ''\"NZBID\" : '' @ py_str i @ '','' @ [LF]) ids)"

text \<open>The connection options of a host.\<close>

definition connection :: "(string \<times> string) list" where
  "connection = [(''NZBOP_CONTROLIP'', ''127.0.0.1''), (''NZBOP_CONTROLPORT'', ''6789''),
                 (''NZBOP_CONTROLUSERNAME'', ''nzbget''), (''NZBOP_CONTROLPASSWORD'', ''secret'')]"

text \<open>A job that was just added to the queue, with the files the host lists for it.\<close>

definition added :: "(int \<times> string) list \<Rightarrow> world" where
  "added fs = bare\<lparr>
     environ := map_of ((''NZBNA_NZBID'', ''7'') # connection),
     http_get := (\<lambda>c. if c = ''listfiles?1=0&2=0&3=7'' then Some (listfiles_reply fs) else None)\<rparr>"

text \<open>Post-processing of the job with the given id while the jobs 1 and 2 are in the
  queue, and a temp folder with the records of the jobs 1 to 4.\<close>

definition janitor :: "string \<Rightarrow> world" where
  "janitor job = bare\<lparr>
     environ := map_of ((''NZBOP_TEMPDIR'', ''/tmp'') # (''NZBPP_NZBID'', job) # connection),
     http_get := (\<lambda>c. if c = ''listgroups?1=0'' then Some (listgroups_reply [1, 2]) else None)\<rparr>"

text \<open>The same post-processing with a host that does not answer the request, and with
  no connection options in the environment.\<close>

definition silent_host :: world where
  "silent_host = (janitor ''3'')\<lparr>http_get := (\<lambda>c. None)\<rparr>"

definition no_connection :: world where
  "no_connection = (janitor ''3'')\<lparr>
     environ := map_of [(''NZBOP_TEMPDIR'', ''/tmp''), (''NZBPP_NZBID'', ''3'')]\<rparr>"

definition four_records :: state where
  "four_records = fresh\<lparr>temp_folder :=
     Some [(''1'', ''a.rar'' @ [LF]), (''2'', []), (''3'', ''b.rar'' @ [LF]), (''4'', [])]\<rparr>"

definition record_of_job_2 :: state where
  "record_of_job_2 = fresh\<lparr>temp_folder := Some [(''2'', ''a.rar'' @ [LF])]\<rparr>"

text \<open>Post-processing of job 7, downloaded again: its directory holds one clean archive
  that was never probed, and the job carries the mark of an earlier run or not.\<close>

definition redownloaded :: "bool \<Rightarrow> world" where
  "redownloaded marked = bare\<lparr>
     environ := map_of
       ((if marked then [(''NZBPR_PASSWORDDETECTOR_HASPASSWORD'', ''yes'')] else []) @
        [(''NZBPP_DIRECTORY'', ''/dl/job''), (''NZBOP_ARTICLECACHE'', ''0''),
         (''NZBPP_STATUS'', ''SUCCESS/ALL''), (''NZBPP_TOTALSTATUS'', ''SUCCESS''),
         (''NZBPO_PASSACTION'', ''Pause''), (''NZBPP_CATEGORY'', ''tv''),
         (''NZBPP_NZBNAME'', ''job''), (''NZBPP_NZBID'', ''7''),
         (''NZBOP_TEMPDIR'', ''/tmp'')] @ connection),
     path_exists := (\<lambda>p. p = ''/dl/job''),
     listdir := (\<lambda>d. if d = ''/dl/job'' then Some [''a.rar''] else None)\<rparr>"

section \<open>Properties of the string functions\<close>

lemma startswith_iff: "startswith s p \<longleftrightarrow> (\<exists>r. s = p @ r)"
  by (induction s p rule: startswith.induct) auto

lemma py_in_iff: "py_in m s \<longleftrightarrow> (\<exists>pre post. s = pre @ m @ post)"
proof (induction s)
  case Nil
  then show ?case by auto
next
  case (Cons c cs)
  show ?case
  proof
    assume "py_in m (c # cs)"
    then consider "startswith (c # cs) m" | "py_in m cs" by auto
    then show "\<exists>pre post. c # cs = pre @ m @ post"
    proof cases
      case 1
      then obtain r where "c # cs = m @ r" by (auto simp: startswith_iff)
      then have "c # cs = [] @ m @ r" by simp
      then show ?thesis by blast
    next
      case 2
      then obtain pre post where "cs = pre @ m @ post" using Cons.IH by auto
      then have "c # cs = (c # pre) @ m @ post" by simp
      then show ?thesis by blast
    qed
  next
    assume "\<exists>pre post. c # cs = pre @ m @ post"
    then obtain pre post where e: "c # cs = pre @ m @ post" by blast
    show "py_in m (c # cs)"
    proof (cases pre)
      case Nil
      with e have "startswith (c # cs) m" by (auto simp: startswith_iff)
      then show ?thesis by simp
    next
      case (Cons p pre')
      with e have "cs = pre' @ m @ post" by simp
      then have "py_in m cs" using Cons.IH by blast
      then show ?thesis by simp
    qed
  qed
qed

lemma py_in_lower: "py_in (lower m) (lower t) \<longleftrightarrow> occurs_ci m t"
  by (simp add: py_in_iff occurs_ci_def)

lemma lower_eq_Nil: "lower s = [] \<longleftrightarrow> s = []"
  by (simp add: lower_def)

lemma check_loop_iff:
  "check_loop ms outtext errtext \<longleftrightarrow>
     (\<exists>m \<in> set ms. strip m \<noteq> [] \<and> (occurs_ci (strip m) outtext \<or> occurs_ci (strip m) errtext))"
  by (induction ms) (auto simp: Let_def py_in_lower lower_eq_Nil)

lemma split_from_not_Nil: "split_from sep cur s \<noteq> []"
  by (induction s arbitrary: cur) auto

lemma lines_from_LF: "lines_from cur (LF # ys) = cur # lines_from [] ys"
  by (cases ys) (simp_all add: is_linebreak_def)

lemma lines_from_name:
  "plain_name f \<Longrightarrow> lines_from cur (f @ LF # ys) = (cur @ f) # lines_from [] ys"
proof (induction f arbitrary: cur)
  case Nil
  then show ?case by (simp add: lines_from_LF)
next
  case (Cons c f)
  then have nb: "\<not> is_linebreak c" and pf: "plain_name f" by (simp_all add: plain_name_def)
  then have ncr: "c \<noteq> CR" by (auto simp: is_linebreak_def)
  obtain e es where e: "f @ LF # ys = e # es" by (cases "f @ LF # ys") auto
  have "lines_from cur ((c # f) @ LF # ys) = lines_from (cur @ [c]) (f @ LF # ys)"
    using nb ncr e by simp
  then show ?case using Cons.IH[OF pf, of "cur @ [c]"] by simp
qed

lemma splitlines_record_data:
  "\<forall>f \<in> set F. plain_name f \<Longrightarrow> lines_from [] (record_data F) = F"
  by (induction F) (simp_all add: record_data_def lines_from_name)

lemma lines_from_append_LF:
  "lines_from cur (xs @ LF # ys) = lines_from cur (xs @ [LF]) @ lines_from [] ys"
proof (induction cur xs rule: lines_from.induct)
  case (1 cur)
  then show ?case by (simp add: lines_from_LF is_linebreak_def)
next
  case (2 cur c)
  then show ?case by (cases ys) (auto simp: is_linebreak_def lines_from_LF)
next
  case (3 cur c d cs)
  then show ?case by (cases "cs @ LF # ys") (auto simp: is_linebreak_def)
qed

lemma splitlines_append:
  assumes "whole_lines c"
  shows "splitlines (c @ data) = splitlines c @ splitlines data"
proof (cases "c = []")
  case True
  then show ?thesis by (simp add: splitlines_def)
next
  case False
  then have "c = butlast c @ [LF]" using assms by (metis whole_lines_def append_butlast_last_id)
  then obtain xs where c: "c = xs @ [LF]" ..
  show ?thesis using lines_from_append_LF[of "[]" xs data] by (simp add: c splitlines_def)
qed

lemma whole_lines_record_data: "whole_lines (record_data F)"
  by (induction F) (auto simp: whole_lines_def record_data_def)

lemma whole_lines_append: "whole_lines c \<Longrightarrow> whole_lines (c @ record_data F)"
  using whole_lines_record_data[of F] by (auto simp: whole_lines_def last_append)

lemma list_of_set_Nil [simp]: "list_of_set ord [] = []"
  by (simp add: list_of_set_def Let_def)

lemma set_list_of_set [simp]: "set (list_of_set ord xs) = set xs"
  by (simp add: list_of_set_def Let_def)

lemma distinct_list_of_set [simp]: "distinct (list_of_set ord xs)"
  by (simp add: list_of_set_def Let_def)

section \<open>Properties of the scan\<close>

lemma scan_eq:
  "scan w d files tested s =
     (let pre = before_positive w d files in
      ((length pre < length files, tested @ record_data pre),
       s\<lparr>printed := printed s @ failure_lines w d pre,
         probed := probed s @ handed_over d (take (Suc (length pre)) files)\<rparr>))"
proof (induction files arbitrary: tested s)
  case Nil
  then show ?case
    by (simp add: record_data_def failure_lines_def handed_over_def before_positive_def)
next
  case (Cons f fs)
  note defs = Let_def record_data_def failure_lines_def handed_over_def before_positive_def
  show ?case
  proof (cases "py_in ''tmp'' f")
    case True
    then have "\<not> positive w d f" by (simp add: positive_def)
    then show ?thesis using True Cons.IH by (simp add: defs)
  next
    case False
    show ?thesis
    proof (cases "unrar_list w (d @ ''/'' @ f)")
      case (Ran out err rc)
      show ?thesis
      proof (cases "check_passwordstrings PasswordStrings out err")
        case True
        then have "positive w d f" using False Ran by (simp add: positive_def)
        then show ?thesis using False Ran True by (simp add: defs)
      next
        case clean: False
        then have "\<not> positive w d f" using False Ran by (simp add: positive_def)
        then show ?thesis using False Ran clean Cons.IH by (simp add: defs)
      qed
    next
      case (Failed e)
      then have "\<not> positive w d f" using False by (simp add: positive_def)
      then show ?thesis using False Failed Cons.IH by (simp add: defs py_print_def)
    qed
  qed
qed

lemma read_record_create [simp]: "read_record t (create_record t s) = Some []"
  by (simp add: read_record_def create_record_def py_print_def update_conv' split: option.splits)

lemma probed_create [simp]: "probed (create_record t s) = probed s"
  by (simp add: create_record_def py_print_def split: option.splits)

lemma get_latest_file_Inr:
  assumes "get_latest_file w t d s = (Inr files, s1)"
  shows "read_record t s1 \<noteq> None" and "probed s1 = probed s"
  using assms
  by (auto simp: get_latest_file_def Let_def split: option.splits)

lemma get_latest_file_probed: "probed (snd (get_latest_file w t d s)) = probed s"
  by (auto simp: get_latest_file_def Let_def split: option.splits)

lemma before_positive_all:
  "(\<forall>f \<in> set files. \<not> positive w d f) \<Longrightarrow> before_positive w d files = files"
  by (simp add: before_positive_def)

lemma before_positive_split:
  "\<forall>g \<in> set pre. \<not> positive w d g \<Longrightarrow> positive w d f \<Longrightarrow>
     before_positive w d (pre @ f # post) = pre"
  by (simp add: before_positive_def takeWhile_append)

lemma before_positive_less:
  "(length (before_positive w d files) < length files) = (\<exists>f \<in> set files. positive w d f)"
proof -
  have "(length (before_positive w d files) = length files) = (\<forall>f \<in> set files. \<not> positive w d f)"
    unfolding before_positive_def
    by (metis takeWhile_eq_all_conv length_takeWhile_le takeWhile_eq_take take_all_iff le_refl)
  moreover have "length (before_positive w d files) \<le> length files"
    by (simp add: before_positive_def length_takeWhile_le)
  ultimately show ?thesis by auto
qed

lemma save_tested_Some:
  "read_record t s \<noteq> None \<Longrightarrow>
     fst (save_tested t data s) = Inr () \<and>
     read_record t (snd (save_tested t data s)) = map_option (\<lambda>c. c @ data) (read_record t s) \<and>
     probed (snd (save_tested t data s)) = probed s \<and>
     printed (snd (save_tested t data s)) = printed s"
  by (auto simp: save_tested_def read_record_def Let_def update_conv' split: option.splits)

lemma contains_password_clean:
  assumes g: "get_latest_file w t d s = (Inr files, s1)"
      and c: "\<forall>f \<in> set files. \<not> positive w d f"
  shows "fst (contains_password w t d s) = Inr False"
    and "read_record t (snd (contains_password w t d s)) =
           map_option (\<lambda>c. c @ record_data files) (read_record t s1)"
    and "probed (snd (contains_password w t d s)) = probed s @ handed_over d files"
    and "printed (snd (contains_password w t d s)) = printed s1 @ failure_lines w d files"
proof -
  let ?s2 = "s1\<lparr>printed := printed s1 @ failure_lines w d files,
               probed := probed s1 @ handed_over d files\<rparr>"
  have sc: "scan w d files [] s1 = ((False, record_data files), ?s2)"
    using c by (simp add: scan_eq before_positive_all Let_def)
  have r: "read_record t ?s2 \<noteq> None" "read_record t ?s2 = read_record t s1"
    using get_latest_file_Inr(1)[OF g] by (simp_all add: read_record_def)
  have cp: "contains_password w t d s =
      (case save_tested t (record_data files) ?s2 of (Inl e, s3) \<Rightarrow> (Inl e, s3) | (Inr u, s3) \<Rightarrow> (Inr False, s3))"
    by (simp add: contains_password_def g sc)
  obtain s3 where st: "save_tested t (record_data files) ?s2 = (Inr (), s3)"
    using save_tested_Some[OF r(1), of "record_data files"] by (metis prod.collapse)
  have cp': "contains_password w t d s = (Inr False, s3)" by (simp add: cp st)
  from save_tested_Some[OF r(1), of "record_data files"] st r
  have "read_record t s3 = map_option (\<lambda>c. c @ record_data files) (read_record t s1)"
    "probed s3 = probed s1 @ handed_over d files"
    "printed s3 = printed s1 @ failure_lines w d files"
    by simp_all
  then show "fst (contains_password w t d s) = Inr False"
    and "read_record t (snd (contains_password w t d s)) =
           map_option (\<lambda>c. c @ record_data files) (read_record t s1)"
    and "probed (snd (contains_password w t d s)) = probed s @ handed_over d files"
    and "printed (snd (contains_password w t d s)) = printed s1 @ failure_lines w d files"
    using cp' get_latest_file_Inr(2)[OF g] by simp_all
qed

lemma contains_password_positive:
  assumes g: "get_latest_file w t d s = (Inr (pre @ f # post), s1)"
      and c: "\<forall>g \<in> set pre. \<not> positive w d g" and p: "positive w d f"
  shows "contains_password w t d s =
           (Inr True, s1\<lparr>printed := printed s1 @ failure_lines w d pre,
                          probed := probed s @ handed_over d pre @ [d @ ''/'' @ f]\<rparr>)"
proof -
  have nt: "\<not> py_in ''tmp'' f" using p by (simp add: positive_def)
  have "scan w d (pre @ f # post) [] s1 =
      ((True, record_data pre),
       s1\<lparr>printed := printed s1 @ failure_lines w d pre,
          probed := probed s1 @ handed_over d pre @ [d @ ''/'' @ f]\<rparr>)"
    using nt by (simp add: scan_eq before_positive_split[OF c p] Let_def handed_over_def)
  then show ?thesis
    using get_latest_file_Inr(2)[OF g] by (simp add: contains_password_def g)
qed

lemma contains_password_probed:
  "probed (snd (contains_password w t d s)) =
     probed s @ (case get_latest_file w t d s of
                   (Inl e, s1) \<Rightarrow> []
                 | (Inr files, s1) \<Rightarrow>
                     handed_over d (take (Suc (length (before_positive w d files))) files))"
proof (cases "get_latest_file w t d s")
  case (Pair r s1)
  have ps: "probed s1 = probed s" using get_latest_file_probed[of w t d s] Pair by simp
  show ?thesis
  proof (cases r)
    case (Inl e)
    then show ?thesis using Pair ps by (simp add: contains_password_def)
  next
    case (Inr files)
    have sp: "save_tested t data s' = (r', s'') \<Longrightarrow> probed s'' = probed s'" for data s' r' s''
      by (auto simp: save_tested_def Let_def split: option.splits)
    show ?thesis using Pair Inr ps
      by (auto simp: contains_password_def scan_eq Let_def before_positive_less
               split: prod.splits sum.splits bool.splits dest!: sp)
  qed
qed

lemma handed_over_no_tmp:
  "py_in ''tmp'' file \<Longrightarrow> d @ ''/'' @ file \<notin> set (handed_over d files)"
  by (auto simp: handed_over_def)

lemma get_latest_file_listing:
  assumes "listdir w d = Some listing"
  shows "fst (get_latest_file w t d s) = Inr (files_to_visit w t s listing)"
  using assms by (simp add: get_latest_file_def files_to_visit_def Let_def split: option.splits)

lemma files_to_visit_recorded:
  "read_record t s = Some content \<Longrightarrow>
     distinct (files_to_visit w t s listing) \<and>
     set (files_to_visit w t s listing) = set listing - set (splitlines content)"
  by (auto simp: files_to_visit_def set_minus_def)

section \<open>Properties of the removal of records\<close>

lemma list_of_set_single [simp]: "list_of_set ord [n] = [n]"
proof -
  have "ys = [n]" if "distinct ys" "set ys = {n}" for ys :: "string list"
  proof (cases ys)
    case Nil
    then show ?thesis using that by simp
  next
    case (Cons a r)
    then have "a = n" "set r \<subseteq> {n}" "a \<notin> set r" using that by auto
    then have "r = []" by (cases r) auto
    then show ?thesis using Cons \<open>a = n\<close> by simp
  qed
  then show ?thesis by (auto simp: list_of_set_def Let_def)
qed

lemma set_old_temp_files:
  "set (old_temp_files w files nzbids nzb_id) =
     {n \<in> set files. n \<notin> set nzbids \<or> nzb_id = Some n}"
  by (auto simp: old_temp_files_def set_minus_def Let_def split: option.splits)

lemma remove_all_folder:
  "temp_folder s = Some entries \<Longrightarrow>
     temp_folder (remove_all w td ids s) =
       Some (filter (\<lambda>e. \<not> (fst e \<in> set ids \<and> \<not> undeletable w (fst e))) entries)"
proof (induction ids arbitrary: s entries)
  case Nil
  then show ?case by simp
next
  case (Cons i ids)
  show ?case
  proof (cases "map_of entries i \<noteq> None \<and> \<not> undeletable w i")
    case True
    have "temp_folder (remove_all w td (i # ids) s) =
        Some (filter (\<lambda>e. \<not> (fst e \<in> set ids \<and> \<not> undeletable w (fst e))) (AList.delete i entries))"
      using True Cons.prems
      by (simp add: Let_def py_print_def Cons.IH)
    also have "filter (\<lambda>e. \<not> (fst e \<in> set ids \<and> \<not> undeletable w (fst e))) (AList.delete i entries)
        = filter (\<lambda>e. \<not> (fst e \<in> set (i # ids) \<and> \<not> undeletable w (fst e))) entries"
      using True by (auto simp: AList.delete_eq intro!: filter_cong)
    finally show ?thesis .
  next
    case False
    have "temp_folder (remove_all w td (i # ids) s) =
        Some (filter (\<lambda>e. \<not> (fst e \<in> set ids \<and> \<not> undeletable w (fst e))) entries)"
      using False Cons.prems
      by (auto simp: Let_def py_print_def Cons.IH)
    also have "filter (\<lambda>e. \<not> (fst e \<in> set ids \<and> \<not> undeletable w (fst e))) entries
        = filter (\<lambda>e. \<not> (fst e \<in> set (i # ids) \<and> \<not> undeletable w (fst e))) entries"
      using False by (auto simp: map_of_eq_None_iff intro!: filter_cong)
    finally show ?thesis .
  qed
qed

lemma remove_all_other:
  "queries (remove_all w td ids s) = queries s \<and> probed (remove_all w td ids s) = probed s \<and>
   edits (remove_all w td ids s) = edits s"
  by (induction ids arbitrary: s) (simp_all add: Let_def py_print_def)

lemma remove_all_printed:
  "\<exists>ls. printed (remove_all w td ids s) = printed s @ ls \<and> (\<forall>l \<in> set ls. removing_line l)"
proof (induction ids arbitrary: s)
  case Nil
  then show ?case by simp
next
  case (Cons i ids)
  let ?a = "''[DETAIL] Removing temp file '' @ td @ ''/'' @ i"
  let ?b = "''[ERROR] Could not remove temp file '' @ td @ ''/'' @ i"
  have a: "removing_line ?a" and b: "removing_line ?b" by (simp_all add: removing_line_def)
  let ?s1 = "py_print ?a s"
  let ?entries = "case temp_folder ?s1 of None \<Rightarrow> [] | Some entries \<Rightarrow> entries"
  show ?case
  proof (cases "map_of ?entries i \<noteq> None \<and> \<not> undeletable w i")
    case True
    then have "remove_all w td (i # ids) s =
        remove_all w td ids (?s1\<lparr>temp_folder := Some (AList.delete i ?entries)\<rparr>)"
      by (simp add: Let_def)
    moreover obtain ls where
      "printed (remove_all w td ids (?s1\<lparr>temp_folder := Some (AList.delete i ?entries)\<rparr>))
         = printed (?s1\<lparr>temp_folder := Some (AList.delete i ?entries)\<rparr>) @ ls"
      "\<forall>l \<in> set ls. removing_line l"
      using Cons.IH by blast
    ultimately have "printed (remove_all w td (i # ids) s) = printed s @ (?a # ls)"
      by (simp add: py_print_def)
    then show ?thesis using a \<open>\<forall>l \<in> set ls. removing_line l\<close>
      by (metis set_ConsD)
  next
    case False
    then have "remove_all w td (i # ids) s = remove_all w td ids (py_print ?b ?s1)"
      by (auto simp: Let_def)
    moreover obtain ls where
      "printed (remove_all w td ids (py_print ?b ?s1)) = printed (py_print ?b ?s1) @ ls"
      "\<forall>l \<in> set ls. removing_line l"
      using Cons.IH by blast
    ultimately have "printed (remove_all w td (i # ids) s) = printed s @ (?a # ?b # ls)"
      by (simp add: py_print_def)
    then show ?thesis using a b \<open>\<forall>l \<in> set ls. removing_line l\<close>
      by (metis set_ConsD)
  qed
qed

lemma call_nzbget_direct_queries:
  "queries (snd (call_nzbget_direct w c s)) =
     queries s @ (if connection_known w then [c] else [])"
  by (simp add: call_nzbget_direct_def)

lemma clean_up_queries:
  assumes "environ w ''NZBOP_TEMPDIR'' = Some tempdir" and "temp_folder s = Some entries"
  shows "queries (snd (clean_up w s)) =
           queries s @ (if 1 < length entries \<and> connection_known w
                        then [''listgroups?1=0''] else [])"
  using assms
  by (auto simp: clean_up_def Let_def call_nzbget_direct_def remove_all_other
           split: sum.splits prod.splits)

lemma clean_up_many:
  assumes "environ w ''NZBOP_TEMPDIR'' = Some tempdir" and "temp_folder s = Some entries"
      and "1 < length entries" and "connection_known w" and "reported w = Inr nzbids"
  shows "clean_up w s =
           (Inr (), remove_all w (tempdir @ ''/PasswordDetector'')
                      (old_temp_files w (map fst entries) nzbids (environ w ''NZBPP_NZBID''))
                      (s\<lparr>queries := queries s @ [''listgroups?1=0'']\<rparr>))"
  using assms by (simp add: clean_up_def Let_def call_nzbget_direct_def reported_def)

lemma clean_up_few:
  assumes "environ w ''NZBOP_TEMPDIR'' = Some tempdir" and "temp_folder s = Some entries"
      and "\<not> 1 < length entries"
  shows "clean_up w s =
           (Inr (), remove_all w (tempdir @ ''/PasswordDetector'')
                      (old_temp_files w (map fst entries) [] (environ w ''NZBPP_NZBID'')) s)"
  using assms by (simp add: clean_up_def Let_def)

lemma clean_up_and_exit_Inl: "\<exists>e. fst (clean_up_and_exit w code s) = Inl e"
  by (auto simp: clean_up_and_exit_def split: prod.splits sum.splits)

lemma clean_up_probed: "probed (snd (clean_up w s)) = probed s"
  by (auto simp: clean_up_def Let_def call_nzbget_direct_def remove_all_other
           split: option.splits prod.splits sum.splits)

lemma clean_up_printed:
  "\<exists>ls. printed (snd (clean_up w s)) = printed s @ ls \<and> (\<forall>l \<in> set ls. removing_line l)"
proof -
  have r: "\<exists>ls. printed (remove_all w td ids s') = printed s @ ls \<and> (\<forall>l \<in> set ls. removing_line l)"
    if "printed s' = printed s" for td ids s'
    using remove_all_printed[of w td ids s'] that by simp
  show ?thesis
    by (auto simp: clean_up_def Let_def call_nzbget_direct_def
             split: option.splits prod.splits sum.splits intro!: r)
qed

lemma clean_up_and_exit_probed: "probed (snd (clean_up_and_exit w code s)) = probed s"
  using clean_up_probed[of w s]
  by (auto simp: clean_up_and_exit_def split: prod.splits sum.splits)

lemma clean_up_and_exit_printed:
  "\<exists>ls. printed (snd (clean_up_and_exit w code s)) = printed s @ ls \<and> (\<forall>l \<in> set ls. removing_line l)"
  using clean_up_printed[of w s]
  by (auto simp: clean_up_and_exit_def split: prod.splits sum.splits)

lemma reported_silent: "http_get w ''listgroups?1=0'' = None \<Longrightarrow> reported w = Inr []"
  by (simp add: reported_def splitlines_def)

lemma clean_up_unconnected:
  assumes "environ w ''NZBOP_TEMPDIR'' = Some tempdir" and "temp_folder s = Some entries"
      and "1 < length entries" and "\<not> connection_known w"
  shows "clean_up w s = (Inl KeyError, s)"
  using assms by (simp add: clean_up_def Let_def call_nzbget_direct_def)

section \<open>Properties of the start-up checks\<close>

lemma removing_line_not_clearing:
  "removing_line l \<Longrightarrow> l \<noteq> ''[NZB] NZBPR_PASSWORDDETECTOR_HASPASSWORD=''"
  by (auto simp: removing_line_def)

lemma start_check_marked:
  assumes m: "environ w ''NZBPR_PASSWORDDETECTOR_HASPASSWORD'' = Some ''yes''"
  shows "(\<exists>e. fst (start_check w s) = Inl e) \<and>
         probed (snd (start_check w s)) = probed s \<and>
         ''[NZB] NZBPR_PASSWORDDETECTOR_HASPASSWORD='' \<notin>
            set (drop (length (printed s)) (printed (snd (start_check w s))))"
proof -
  let ?clear = "''[NZB] NZBPR_PASSWORDDETECTOR_HASPASSWORD=''"
  let ?good = "\<lambda>r. (\<exists>e. fst r = Inl e) \<and> probed (snd r) = probed s \<and>
                  ?clear \<notin> set (drop (length (printed s)) (printed (snd r)))"
  have ce: "?good (clean_up_and_exit w code (py_print l s))" if "l \<noteq> ?clear" for code l
  proof -
    obtain ls where ls: "printed (snd (clean_up_and_exit w code (py_print l s))) = printed (py_print l s) @ ls"
      "\<forall>x \<in> set ls. removing_line x"
      using clean_up_and_exit_printed by blast
    have "?clear \<notin> set (l # ls)" using that ls(2) removing_line_not_clearing by auto
    then show ?thesis
      using ls(1) clean_up_and_exit_Inl[of w code "py_print l s"]
        clean_up_and_exit_probed[of w code "py_print l s"]
      by (simp add: py_print_def)
  qed
  let ?c1 = "\<not> (environ w ''NZBNA_EVENT'' \<noteq> None \<or> environ w ''NZBPP_DIRECTORY'' \<noteq> None)
         \<or> environ w ''NZBOP_ARTICLECACHE'' = None"
  let ?c2 = "environ w ''NZBNA_EVENT'' \<notin>
                {Some ''NZB_ADDED'', Some ''FILE_DOWNLOADED'', Some ''NZB_DOWNLOADED'', None}"
  let ?c3 = "environ w ''NZBPP_STATUS'' = Some ''FAILURE/BAD''"
  show ?thesis
  proof (cases ?c1)
    case True
    have "start_check w s = (Inl (SystemExit 1),
            py_print ''This script is supposed to be called from nzbget (14.0 or later).''
              (py_print ''*** NZBGet queue script ***'' s))"
      unfolding start_check_def by (simp only: if_P[OF True] if_True if_False)
    then show ?thesis by (simp add: py_print_def)
  next
    case n1: False
    show ?thesis
    proof (cases ?c2)
      case True
      have "start_check w s = (Inl (SystemExit 0), s)"
        unfolding start_check_def by (simp only: if_not_P[OF n1] if_P[OF True] if_True if_False)
      then show ?thesis by simp
    next
      case n2: False
      show ?thesis
      proof (cases ?c3)
        case True
        have "start_check w s = clean_up_and_exit w POSTPROCESS_SUCCESS
             (py_print ''[WARNING] Download is password protected'' s)"
          unfolding start_check_def
          by (simp only: if_not_P[OF n1] if_not_P[OF n2] if_P[OF True] if_P[OF m] if_True if_False)
        then show ?thesis using ce[of "''[WARNING] Download is password protected''"] by simp
      next
        case n3: False
        let ?s1 = "py_print ''[DETAIL] Password previously found, skipping detection'' s"
        have sc: "start_check w s =
            (if environ w ''NZBPP_DIRECTORY'' \<noteq> None
             then clean_up_and_exit w POSTPROCESS_SUCCESS ?s1
             else (Inl (SystemExit POSTPROCESS_SUCCESS), ?s1))"
          unfolding start_check_def
          by (simp only: if_not_P[OF n1] if_not_P[OF n2] if_not_P[OF n3] if_P[OF m] Let_def)
        show ?thesis
        proof (cases "environ w ''NZBPP_DIRECTORY'' \<noteq> None")
          case True
          then show ?thesis
            using sc ce[of "''[DETAIL] Password previously found, skipping detection''"] by simp
        next
          case False
          then show ?thesis using sc by (simp add: py_print_def)
        qed
      qed
    qed
  qed
qed

lemma main_marked:
  assumes "environ w ''NZBPR_PASSWORDDETECTOR_HASPASSWORD'' = Some ''yes''"
  shows "main w s = start_check w s"
proof -
  from start_check_marked[OF assms, of s] obtain e where "fst (start_check w s) = Inl e" by blast
  then show ?thesis by (cases "start_check w s") (simp add: main_def)
qed

section \<open>Claims about the scan\<close>

text \<open>C1 (as amended). When \<open>get_latest_file\<close> has returned the files to visit, the job's
  record exists. If no visited file is positive, \<open>contains_password\<close> runs to its end
  and appends the name of every visited file, each with a newline, to the record: the
  files it probed, the files it skipped for their name and the files whose probe failed.
  If some file is positive, \<open>contains_password\<close> returns \<open>True\<close> at once and the temp
  folder is left as \<open>get_latest_file\<close> left it: nothing is appended.\<close>

theorem visited_files_recorded_when_clean:
  assumes "get_latest_file w t d s = (Inr files, s1)"
  shows "read_record t s1 \<noteq> None \<and>
    ((\<forall>f \<in> set files. \<not> positive w d f) \<longrightarrow>
       fst (contains_password w t d s) = Inr False \<and>
       read_record t (snd (contains_password w t d s)) =
         map_option (\<lambda>c. c @ record_data files) (read_record t s1)) \<and>
    ((\<exists>f \<in> set files. positive w d f) \<longrightarrow>
       fst (contains_password w t d s) = Inr True \<and>
       temp_folder (snd (contains_password w t d s)) = temp_folder s1)"
proof (intro conjI impI)
  show "read_record t s1 \<noteq> None" using get_latest_file_Inr(1)[OF assms] .
next
  assume "\<forall>f \<in> set files. \<not> positive w d f"
  then show "fst (contains_password w t d s) = Inr False"
    and "read_record t (snd (contains_password w t d s)) =
         map_option (\<lambda>c. c @ record_data files) (read_record t s1)"
    using contains_password_clean[OF assms] by simp_all
next
  assume "\<exists>f \<in> set files. positive w d f"
  then have "length (before_positive w d files) < length files"
    by (simp add: before_positive_less)
  then have sc: "fst (fst (scan w d files [] s1)) = True"
     "temp_folder (snd (scan w d files [] s1)) = temp_folder s1"
    by (simp_all add: scan_eq Let_def)
  then show "fst (contains_password w t d s) = Inr True"
    and "temp_folder (snd (contains_password w t d s)) = temp_folder s1"
    by (auto simp: contains_password_def assms split: prod.splits bool.splits sum.splits)
qed

text \<open>The amended C1 on the clean job: all three names are in the record; and on the
  job whose first part is protected: the record stays empty.\<close>

theorem visited_files_recorded_when_clean_witness:
  "fst (contains_password clean_job ''/tmp/PasswordDetector/7'' ''/dl/job'' fresh) = Inr False \<and>
   read_record ''/tmp/PasswordDetector/7''
     (snd (contains_password clean_job ''/tmp/PasswordDetector/7'' ''/dl/job'' fresh))
     = Some (record_data [''a.rar.tmp'', ''a.rar'', ''b.rar'']) \<and>
   fst (contains_password two_parts ''/tmp/PasswordDetector/7'' ''/dl/job'' fresh) = Inr True \<and>
   temp_folder (snd (contains_password two_parts ''/tmp/PasswordDetector/7'' ''/dl/job'' fresh))
     = Some [(''7'', [])]"
proof -
  have g: "get_latest_file clean_job ''/tmp/PasswordDetector/7'' ''/dl/job'' fresh
             = (Inr [''a.rar.tmp'', ''a.rar'', ''b.rar''],
                create_record ''/tmp/PasswordDetector/7'' fresh)"
    by code_simp
  have c: "\<forall>f \<in> set [''a.rar.tmp'', ''a.rar'', ''b.rar'']. \<not> positive clean_job ''/dl/job'' f"
    by code_simp
  have g2: "get_latest_file two_parts ''/tmp/PasswordDetector/7'' ''/dl/job'' fresh
             = (Inr [''a.part01.rar'', ''a.part02.rar''],
                create_record ''/tmp/PasswordDetector/7'' fresh)"
    by code_simp
  have p: "\<exists>f \<in> set [''a.part01.rar'', ''a.part02.rar'']. positive two_parts ''/dl/job'' f"
    by code_simp
  have t: "temp_folder (create_record ''/tmp/PasswordDetector/7'' fresh) = Some [(''7'', [])]"
    by code_simp
  from visited_files_recorded_when_clean[OF g] c
  have 1: "fst (contains_password clean_job ''/tmp/PasswordDetector/7'' ''/dl/job'' fresh) = Inr False \<and>
    read_record ''/tmp/PasswordDetector/7''
      (snd (contains_password clean_job ''/tmp/PasswordDetector/7'' ''/dl/job'' fresh))
      = map_option (\<lambda>c. c @ record_data [''a.rar.tmp'', ''a.rar'', ''b.rar''])
          (read_record ''/tmp/PasswordDetector/7'' (create_record ''/tmp/PasswordDetector/7'' fresh))"
    by blast
  from visited_files_recorded_when_clean[OF g2] p
  have 2: "fst (contains_password two_parts ''/tmp/PasswordDetector/7'' ''/dl/job'' fresh) = Inr True \<and>
    temp_folder (snd (contains_password two_parts ''/tmp/PasswordDetector/7'' ''/dl/job'' fresh))
      = temp_folder (create_record ''/tmp/PasswordDetector/7'' fresh)"
    by blast
  from 1 2 t show ?thesis by simp
qed

text \<open>C1 as stated fails. The first of two untested parts probes positive; it was
  visited and handed to the tool, yet the record holds no name after the run.\<close>

theorem positive_scan_records_nothing:
  "fst (contains_password two_parts ''/tmp/PasswordDetector/7'' ''/dl/job'' fresh) = Inr True \<and>
   probed (snd (contains_password two_parts ''/tmp/PasswordDetector/7'' ''/dl/job'' fresh))
     = [''/dl/job/a.part01.rar''] \<and>
   read_record ''/tmp/PasswordDetector/7''
     (snd (contains_password two_parts ''/tmp/PasswordDetector/7'' ''/dl/job'' fresh)) = Some []"
  by code_simp

text \<open>C4 (as amended). The files are handed to the inspection tool in the order of the
  list that \<open>get_latest_file\<close> returns for the directory listing, those with \<open>tmp\<close> in
  their name left out. While the job has no record that list is the listing itself, so
  the order is the listing's. Once a record exists the list holds each listed file that
  is not in the record once, in the order in which the run iterates over a set; that
  order need not be the listing's. Probing halts at the first positive file of the
  list: the files before it and then that file are handed over, no file after it in the
  list is, \<open>contains_password\<close> returns \<open>True\<close>, and the temp folder is left as
  \<open>get_latest_file\<close> left it, so no file is marked tested. When no file of the list is
  positive, all of them are handed over in the order of the list.\<close>

theorem probing_follows_the_untested_list_and_halts:
  assumes "listdir w d = Some listing"
  shows
    "fst (get_latest_file w t d s) = Inr (files_to_visit w t s listing) \<and>
     (read_record t s = None \<longrightarrow> files_to_visit w t s listing = listing) \<and>
     (\<forall>content. read_record t s = Some content \<longrightarrow>
        distinct (files_to_visit w t s listing) \<and>
        set (files_to_visit w t s listing) = set listing - set (splitlines content)) \<and>
     ((\<forall>f \<in> set (files_to_visit w t s listing). \<not> positive w d f) \<longrightarrow>
        probed (snd (contains_password w t d s)) =
          probed s @ handed_over d (files_to_visit w t s listing)) \<and>
     (\<forall>pre f post.
        files_to_visit w t s listing = pre @ f # post \<and>
        (\<forall>g \<in> set pre. \<not> positive w d g) \<and> positive w d f \<longrightarrow>
          fst (contains_password w t d s) = Inr True \<and>
          probed (snd (contains_password w t d s)) =
            probed s @ handed_over d pre @ [d @ ''/'' @ f] \<and>
          temp_folder (snd (contains_password w t d s)) =
            temp_folder (snd (get_latest_file w t d s)))"
proof (intro conjI allI impI)
  let ?fs = "files_to_visit w t s listing"
  have g: "get_latest_file w t d s = (Inr ?fs, snd (get_latest_file w t d s))"
    using get_latest_file_listing[OF assms, of t s] by (metis prod.collapse)
  show "fst (get_latest_file w t d s) = Inr ?fs" using get_latest_file_listing[OF assms] .
  show "?fs = listing" if "read_record t s = None"
    using that by (simp add: files_to_visit_def)
  show "distinct ?fs" if "read_record t s = Some content" for content
    using files_to_visit_recorded[OF that] by blast
  show "set ?fs = set listing - set (splitlines content)"
    if "read_record t s = Some content" for content
    using files_to_visit_recorded[OF that] by blast
  show "probed (snd (contains_password w t d s)) = probed s @ handed_over d ?fs"
    if "\<forall>f \<in> set ?fs. \<not> positive w d f"
    using contains_password_clean(3)[OF g that] .
  {
    fix pre f post
    assume a: "?fs = pre @ f # post \<and> (\<forall>g \<in> set pre. \<not> positive w d g) \<and> positive w d f"
    then have g': "get_latest_file w t d s = (Inr (pre @ f # post), snd (get_latest_file w t d s))"
      using g by simp
    from contains_password_positive[OF g'] a
    show "fst (contains_password w t d s) = Inr True"
      and "probed (snd (contains_password w t d s)) = probed s @ handed_over d pre @ [d @ ''/'' @ f]"
      and "temp_folder (snd (contains_password w t d s)) = temp_folder (snd (get_latest_file w t d s))"
      by simp_all
  }
qed

text \<open>The amended C4 on a first run over five files whose fourth is protected, and on a
  later run that iterates over sets in reverse: its two clean files are probed in the
  reverse of the listing's order.\<close>

theorem probing_follows_the_untested_list_and_halts_witness:
  "fst (contains_password five_files ''/tmp/PasswordDetector/7'' ''/dl/job'' fresh) = Inr True \<and>
   probed (snd (contains_password five_files ''/tmp/PasswordDetector/7'' ''/dl/job'' fresh))
     = [''/dl/job/a.part01.rar'', ''/dl/job/a.part02.rar'', ''/dl/job/a.part03.rar''] \<and>
   temp_folder (snd (contains_password five_files ''/tmp/PasswordDetector/7'' ''/dl/job'' fresh))
     = Some [(''7'', [])] \<and>
   files_to_visit two_archives ''/tmp/PasswordDetector/7'' one_recorded [''a.rar'', ''b.rar'']
     = [''b.rar'', ''a.rar''] \<and>
   probed (snd (contains_password two_archives ''/tmp/PasswordDetector/7'' ''/dl/job'' one_recorded))
     = [''/dl/job/b.rar'', ''/dl/job/a.rar'']"
proof -
  have l: "listdir five_files ''/dl/job'' =
      Some [''a.rar.tmp'', ''a.part01.rar'', ''a.part02.rar'', ''a.part03.rar'', ''a.part04.rar'']"
    by code_simp
  have v: "files_to_visit five_files ''/tmp/PasswordDetector/7'' fresh
             [''a.rar.tmp'', ''a.part01.rar'', ''a.part02.rar'', ''a.part03.rar'', ''a.part04.rar'']
           = [''a.rar.tmp'', ''a.part01.rar'', ''a.part02.rar''] @ ''a.part03.rar'' # [''a.part04.rar'']"
    by code_simp
  have c: "\<forall>g \<in> set [''a.rar.tmp'', ''a.part01.rar'', ''a.part02.rar'']. \<not> positive five_files ''/dl/job'' g"
    by code_simp
  have p: "positive five_files ''/dl/job'' ''a.part03.rar''" by code_simp
  have h: "handed_over ''/dl/job'' [''a.rar.tmp'', ''a.part01.rar'', ''a.part02.rar'']
      = [''/dl/job/a.part01.rar'', ''/dl/job/a.part02.rar'']" by code_simp
  have t: "temp_folder (snd (get_latest_file five_files ''/tmp/PasswordDetector/7'' ''/dl/job'' fresh))
      = Some [(''7'', [])]"
    by code_simp
  have f: "probed fresh = []" by (simp add: fresh_def)
  have l2: "listdir two_archives ''/dl/job'' = Some [''a.rar'', ''b.rar'']" by code_simp
  have v2: "files_to_visit two_archives ''/tmp/PasswordDetector/7'' one_recorded [''a.rar'', ''b.rar'']
      = [''b.rar'', ''a.rar'']" by code_simp
  have c2: "\<forall>f \<in> set [''b.rar'', ''a.rar'']. \<not> positive two_archives ''/dl/job'' f" by code_simp
  have h2: "handed_over ''/dl/job'' [''b.rar'', ''a.rar''] = [''/dl/job/b.rar'', ''/dl/job/a.rar'']"
    by code_simp
  have f2: "probed one_recorded = []" by (simp add: one_recorded_def fresh_def)
  note T = probing_follows_the_untested_list_and_halts[OF l, of "''/tmp/PasswordDetector/7''" fresh]
  from T have "\<forall>pre f post.
        files_to_visit five_files ''/tmp/PasswordDetector/7'' fresh
          [''a.rar.tmp'', ''a.part01.rar'', ''a.part02.rar'', ''a.part03.rar'', ''a.part04.rar'']
          = pre @ f # post \<and>
        (\<forall>g \<in> set pre. \<not> positive five_files ''/dl/job'' g) \<and> positive five_files ''/dl/job'' f \<longrightarrow>
          fst (contains_password five_files ''/tmp/PasswordDetector/7'' ''/dl/job'' fresh) = Inr True \<and>
          probed (snd (contains_password five_files ''/tmp/PasswordDetector/7'' ''/dl/job'' fresh)) =
            probed fresh @ handed_over ''/dl/job'' pre @ [''/dl/job'' @ ''/'' @ f] \<and>
          temp_folder (snd (contains_password five_files ''/tmp/PasswordDetector/7'' ''/dl/job'' fresh)) =
            temp_folder (snd (get_latest_file five_files ''/tmp/PasswordDetector/7'' ''/dl/job'' fresh))"
    by blast
  with v c p
  have "fst (contains_password five_files ''/tmp/PasswordDetector/7'' ''/dl/job'' fresh) = Inr True \<and>
          probed (snd (contains_password five_files ''/tmp/PasswordDetector/7'' ''/dl/job'' fresh)) =
            probed fresh @ handed_over ''/dl/job'' [''a.rar.tmp'', ''a.part01.rar'', ''a.part02.rar'']
              @ [''/dl/job'' @ ''/'' @ ''a.part03.rar''] \<and>
          temp_folder (snd (contains_password five_files ''/tmp/PasswordDetector/7'' ''/dl/job'' fresh)) =
            temp_folder (snd (get_latest_file five_files ''/tmp/PasswordDetector/7'' ''/dl/job'' fresh))"
    by blast
  then have 1: "fst (contains_password five_files ''/tmp/PasswordDetector/7'' ''/dl/job'' fresh) = Inr True \<and>
   probed (snd (contains_password five_files ''/tmp/PasswordDetector/7'' ''/dl/job'' fresh))
     = [''/dl/job/a.part01.rar'', ''/dl/job/a.part02.rar'', ''/dl/job/a.part03.rar''] \<and>
   temp_folder (snd (contains_password five_files ''/tmp/PasswordDetector/7'' ''/dl/job'' fresh))
     = Some [(''7'', [])]"
    by (simp add: h t f)
  note T2 = probing_follows_the_untested_list_and_halts[OF l2, of "''/tmp/PasswordDetector/7''" one_recorded]
  from T2 have "(\<forall>f \<in> set (files_to_visit two_archives ''/tmp/PasswordDetector/7'' one_recorded [''a.rar'', ''b.rar'']).
          \<not> positive two_archives ''/dl/job'' f) \<longrightarrow>
        probed (snd (contains_password two_archives ''/tmp/PasswordDetector/7'' ''/dl/job'' one_recorded)) =
          probed one_recorded @ handed_over ''/dl/job''
            (files_to_visit two_archives ''/tmp/PasswordDetector/7'' one_recorded [''a.rar'', ''b.rar''])"
    by blast
  then have 2: "probed (snd (contains_password two_archives ''/tmp/PasswordDetector/7'' ''/dl/job'' one_recorded))
     = [''/dl/job/b.rar'', ''/dl/job/a.rar'']"
    using c2 by (simp only: v2 h2 f2 append_Nil)
  from 1 v2 2 show ?thesis by blast
qed

text \<open>C4 as stated fails. The directory lists the protected \<open>a.part01.rar\<close> before
  \<open>a.part02.rar\<close>, the job has a record, and the run iterates over the set of untested
  files in reverse: \<open>a.part02.rar\<close>, which follows the positive file in the listing, is
  probed, and it is probed first.\<close>

theorem later_run_probes_against_the_listing:
  "listdir two_parts_reversed ''/dl/job'' = Some [''a.part01.rar'', ''a.part02.rar''] \<and>
   read_record ''/tmp/PasswordDetector/7'' one_recorded = Some (''x.rar'' @ [LF]) \<and>
   positive two_parts_reversed ''/dl/job'' ''a.part01.rar'' \<and>
   contains_password two_parts_reversed ''/tmp/PasswordDetector/7'' ''/dl/job'' one_recorded =
     (Inr True,
      one_recorded\<lparr>probed := [''/dl/job/a.part02.rar'', ''/dl/job/a.part01.rar'']\<rparr>)"
  by code_simp




text \<open>C9 (as amended). A file with \<open>tmp\<close> in its name is never handed to the inspection
  tool, in any invocation and whatever the record holds. When the scan that visits it
  finds no positive file, its name and a newline are appended to the record with those of
  the other visited files.\<close>

theorem tmp_files_are_skipped:
  assumes "py_in ''tmp'' file"
  shows "d @ ''/'' @ file \<notin> set (drop (length (probed s)) (probed (snd (contains_password w t d s)))) \<and>
     (\<forall>pre post s1.
        get_latest_file w t d s = (Inr (pre @ file # post), s1) \<and>
        (\<forall>f \<in> set (pre @ post). \<not> positive w d f) \<longrightarrow>
          fst (contains_password w t d s) = Inr False \<and>
          read_record t s1 \<noteq> None \<and>
          read_record t (snd (contains_password w t d s)) =
            map_option (\<lambda>c. c @ record_data pre @ file @ [LF] @ record_data post)
              (read_record t s1))"
proof (intro conjI allI impI)
  show "d @ ''/'' @ file \<notin> set (drop (length (probed s)) (probed (snd (contains_password w t d s))))"
    using handed_over_no_tmp[OF assms]
    by (simp add: contains_password_probed split: prod.splits sum.splits)
next
  fix pre post s1
  assume a: "get_latest_file w t d s = (Inr (pre @ file # post), s1) \<and>
        (\<forall>f \<in> set (pre @ post). \<not> positive w d f)"
  then have g: "get_latest_file w t d s = (Inr (pre @ file # post), s1)" by simp
  have "\<not> positive w d file" using assms by (simp add: positive_def)
  then have c: "\<forall>f \<in> set (pre @ file # post). \<not> positive w d f" using a by auto
  have rd: "record_data (pre @ file # post) = record_data pre @ file @ [LF] @ record_data post"
    by (simp add: record_data_def)
  show "fst (contains_password w t d s) = Inr False"
    using contains_password_clean(1)[OF g c] .
  show "read_record t s1 \<noteq> None" using get_latest_file_Inr(1)[OF g] .
  show "read_record t (snd (contains_password w t d s)) =
            map_option (\<lambda>c. c @ record_data pre @ file @ [LF] @ record_data post)
              (read_record t s1)"
    using contains_password_clean(2)[OF g c] by (simp add: rd)
qed

text \<open>The amended C9 on the clean job and its file \<open>a.rar.tmp\<close>.\<close>

theorem tmp_files_are_skipped_witness:
  "''/dl/job/a.rar.tmp'' \<notin> set (probed (snd (contains_password clean_job ''/tmp/PasswordDetector/7'' ''/dl/job'' fresh))) \<and>
   fst (contains_password clean_job ''/tmp/PasswordDetector/7'' ''/dl/job'' fresh) = Inr False \<and>
   read_record ''/tmp/PasswordDetector/7''
     (snd (contains_password clean_job ''/tmp/PasswordDetector/7'' ''/dl/job'' fresh))
     = Some (''a.rar.tmp'' @ [LF] @ ''a.rar'' @ [LF] @ ''b.rar'' @ [LF])"
proof -
  have n: "py_in ''tmp'' ''a.rar.tmp''" by code_simp
  have g: "get_latest_file clean_job ''/tmp/PasswordDetector/7'' ''/dl/job'' fresh
             = (Inr ([] @ ''a.rar.tmp'' # [''a.rar'', ''b.rar'']),
                create_record ''/tmp/PasswordDetector/7'' fresh)"
    by code_simp
  have c: "\<forall>f \<in> set ([] @ [''a.rar'', ''b.rar'']). \<not> positive clean_job ''/dl/job'' f"
    by code_simp
  have p: "probed fresh = []" by (simp add: fresh_def)
  have rd: "record_data [] = []" "record_data [''a.rar'', ''b.rar''] = ''a.rar'' @ [LF] @ ''b.rar'' @ [LF]"
    by (simp_all add: record_data_def)
  note T = tmp_files_are_skipped[OF n, of "''/dl/job''" fresh clean_job "''/tmp/PasswordDetector/7''"]
  from T p have 1: "''/dl/job/a.rar.tmp'' \<notin> set (probed (snd (contains_password clean_job ''/tmp/PasswordDetector/7'' ''/dl/job'' fresh)))"
    by simp
  from T g c have "fst (contains_password clean_job ''/tmp/PasswordDetector/7'' ''/dl/job'' fresh) = Inr False \<and>
     read_record ''/tmp/PasswordDetector/7''
       (snd (contains_password clean_job ''/tmp/PasswordDetector/7'' ''/dl/job'' fresh))
     = map_option (\<lambda>c. c @ record_data [] @ ''a.rar.tmp'' @ [LF] @ record_data [''a.rar'', ''b.rar''])
         (read_record ''/tmp/PasswordDetector/7'' (create_record ''/tmp/PasswordDetector/7'' fresh))"
    by blast
  then have 2: "fst (contains_password clean_job ''/tmp/PasswordDetector/7'' ''/dl/job'' fresh) = Inr False \<and>
   read_record ''/tmp/PasswordDetector/7''
     (snd (contains_password clean_job ''/tmp/PasswordDetector/7'' ''/dl/job'' fresh))
     = Some (''a.rar.tmp'' @ [LF] @ ''a.rar'' @ [LF] @ ''b.rar'' @ [LF])"
    by (simp add: rd)
  from 1 2 show ?thesis by blast
qed

text \<open>C9 as stated fails. \<open>video.tmp\<close> is visited and skipped, the next file is
  positive, and the record holds no name after the run.\<close>

theorem tmp_file_before_positive_is_not_recorded:
  "get_latest_file tmp_then_protected ''/tmp/PasswordDetector/7'' ''/dl/job'' fresh
     = (Inr [''video.tmp'', ''a.rar''], create_record ''/tmp/PasswordDetector/7'' fresh) \<and>
   contains_password tmp_then_protected ''/tmp/PasswordDetector/7'' ''/dl/job'' fresh
     = (Inr True, (create_record ''/tmp/PasswordDetector/7'' fresh)\<lparr>probed := [''/dl/job/a.rar'']\<rparr>) \<and>
   read_record ''/tmp/PasswordDetector/7''
     (snd (contains_password tmp_then_protected ''/tmp/PasswordDetector/7'' ''/dl/job'' fresh))
     = Some []"
  by code_simp

section \<open>Claims about the record of tested files\<close>

lemma save_tested_keeps_whole_lines:
  assumes "case read_record t s of None \<Rightarrow> True | Some c \<Rightarrow> whole_lines c"
      and "save_tested t (record_data F) s = (Inr u, s')"
  shows "\<exists>c. read_record t s' = Some c \<and> whole_lines c"
proof -
  from assms(2) obtain entries where e: "temp_folder s = Some entries"
    by (auto simp: save_tested_def split: option.splits)
  define old where "old = (case map_of entries (basename t) of None \<Rightarrow> [] | Some c \<Rightarrow> c)"
  have "whole_lines old"
    using assms(1) e by (auto simp: old_def read_record_def whole_lines_def split: option.splits)
  moreover have "read_record t s' = Some (old @ record_data F)"
    using assms(2) e by (auto simp: save_tested_def old_def Let_def read_record_def update_conv')
  ultimately show ?thesis by (simp add: whole_lines_append)
qed

text \<open>C7 (as amended). Let the names of \<open>F\<close> hold no line boundary and let the job's
  record be missing, empty or end with a newline (\<open>create_record\<close> and \<open>save_tested\<close> keep
  it so). After \<open>save_tested\<close> has appended the names of \<open>F\<close>, a call of
  \<open>get_latest_file\<close> on a directory that lists \<open>F\<close> returns no file and changes nothing.
  This holds in every later process: its state has nothing in common with the state after
  the append but the temp folder, and its world may iterate over sets in any order.\<close>

theorem recorded_files_are_not_untested:
  assumes names: "\<forall>f \<in> set F. plain_name f"
      and whole: "case read_record t s of None \<Rightarrow> True | Some c \<Rightarrow> whole_lines c"
      and saved: "save_tested t (record_data F) s = (Inr (), s')"
      and restart: "temp_folder s'' = temp_folder s'"
      and listing: "listdir w d = Some F"
  shows "get_latest_file w t d s'' = (Inr [], s'')"
proof -
  from saved obtain entries where e: "temp_folder s = Some entries"
    by (auto simp: save_tested_def split: option.splits)
  define old where "old = (case map_of entries (basename t) of None \<Rightarrow> [] | Some c \<Rightarrow> c)"
  have s': "s' = s\<lparr>temp_folder := Some (AList.update (basename t) (old @ record_data F) entries)\<rparr>"
    using saved e by (simp add: save_tested_def old_def Let_def)
  have old: "whole_lines old" "read_record t s' = Some (old @ record_data F)"
    using whole e
    by (auto simp: s' old_def read_record_def whole_lines_def update_conv' split: option.splits)
  have r: "read_record t s'' = Some (old @ record_data F)"
    using old(2) restart by (simp add: read_record_def)
  have "splitlines (old @ record_data F) = splitlines old @ F"
    using splitlines_append[OF old(1)] splitlines_record_data[OF names] by (simp add: splitlines_def)
  then have "filter (\<lambda>x. x \<notin> set (splitlines (old @ record_data F))) F = []"
    by (simp add: filter_empty_conv)
  then show ?thesis by (simp add: get_latest_file_def r listing set_minus_def)
qed

text \<open>The amended C7 on a record that holds one name already, read back in a run that
  iterates over sets in reverse.\<close>

theorem recorded_files_are_not_untested_witness:
  "save_tested ''/tmp/PasswordDetector/7'' (record_data [''a.rar'', ''b.rar'']) one_recorded
     = (Inr (), fresh\<lparr>temp_folder :=
          Some [(''7'', ''x.rar'' @ [LF] @ ''a.rar'' @ [LF] @ ''b.rar'' @ [LF])]\<rparr>) \<and>
   get_latest_file two_archives ''/tmp/PasswordDetector/7'' ''/dl/job''
     (fresh\<lparr>temp_folder := Some [(''7'', ''x.rar'' @ [LF] @ ''a.rar'' @ [LF] @ ''b.rar'' @ [LF])]\<rparr>)
     = (Inr [], fresh\<lparr>temp_folder :=
          Some [(''7'', ''x.rar'' @ [LF] @ ''a.rar'' @ [LF] @ ''b.rar'' @ [LF])]\<rparr>)"
proof -
  have n: "\<forall>f \<in> set [''a.rar'', ''b.rar'']. plain_name f" by code_simp
  have w: "case read_record ''/tmp/PasswordDetector/7'' one_recorded of
             None \<Rightarrow> True | Some c \<Rightarrow> whole_lines c" by code_simp
  have s: "save_tested ''/tmp/PasswordDetector/7'' (record_data [''a.rar'', ''b.rar'']) one_recorded
     = (Inr (), fresh\<lparr>temp_folder :=
          Some [(''7'', ''x.rar'' @ [LF] @ ''a.rar'' @ [LF] @ ''b.rar'' @ [LF])]\<rparr>)"
    by code_simp
  have l: "listdir two_archives ''/dl/job'' = Some [''a.rar'', ''b.rar'']" by code_simp
  from recorded_files_are_not_untested[OF n w s refl l] s show ?thesis by blast
qed

text \<open>C7 as stated fails for a file name that holds a newline: the record is read back
  as two names, neither of them the file's, and the file is returned as untested.\<close>

theorem name_with_newline_stays_untested:
  "save_tested ''/tmp/PasswordDetector/7'' (record_data [''a'' @ [LF] @ ''b.rar'']) empty_folder
     = (Inr (), fresh\<lparr>temp_folder := Some [(''7'', ''a'' @ [LF] @ ''b.rar'' @ [LF])]\<rparr>) \<and>
   get_latest_file newline_name ''/tmp/PasswordDetector/7'' ''/dl/job''
     (fresh\<lparr>temp_folder := Some [(''7'', ''a'' @ [LF] @ ''b.rar'' @ [LF])]\<rparr>)
     = (Inr [''a'' @ [LF] @ ''b.rar''],
        fresh\<lparr>temp_folder := Some [(''7'', ''a'' @ [LF] @ ''b.rar'' @ [LF])]\<rparr>)"
  by code_simp

section \<open>Claims about the classification\<close>

text \<open>C5. \<open>check_passwordstrings\<close> answers \<open>True\<close> exactly when some entry of the comma
  separated marker list is not empty after \<open>strip()\<close> and, stripped, occurs in the output
  text or in the error text, upper and lower case taken as equal. So it answers \<open>False\<close>
  for every text when all entries are blank, and when the marker list is empty.\<close>

theorem check_passwordstrings_iff:
  "(check_passwordstrings markers outtext errtext \<longleftrightarrow>
      (\<exists>m \<in> set (split markers (CHR '','')).
         strip m \<noteq> [] \<and> (occurs_ci (strip m) outtext \<or> occurs_ci (strip m) errtext))) \<and>
   ((\<forall>m \<in> set (split markers (CHR '','')). strip m = []) \<longrightarrow>
      \<not> check_passwordstrings markers outtext errtext) \<and>
   \<not> check_passwordstrings [] outtext errtext"
proof -
  have s: "strip [] = []" by (simp add: strip_def)
  have 1: "check_passwordstrings markers outtext errtext \<longleftrightarrow>
      (\<exists>m \<in> set (split markers (CHR '','')).
         strip m \<noteq> [] \<and> (occurs_ci (strip m) outtext \<or> occurs_ci (strip m) errtext))"
    for markers
    by (auto simp: check_passwordstrings_def Let_def check_loop_iff s)
  have "split [] (CHR '','') = [[]]" by (simp add: split_def)
  then have "\<not> check_passwordstrings [] outtext errtext"
    by (simp add: check_passwordstrings_def)
  then show ?thesis using 1 by blast
qed

text \<open>C5 on a marker list of blank entries and on the script's own list.\<close>

theorem check_passwordstrings_iff_witness:
  "\<not> check_passwordstrings '' , ,'' ''wrong password'' [] \<and>
   check_passwordstrings PasswordStrings [] ''ERROR: the specified PASSWORD is incorrect.'' \<and>
   (\<exists>m \<in> set (split PasswordStrings (CHR '','')).
      strip m \<noteq> [] \<and>
      (occurs_ci (strip m) [] \<or> occurs_ci (strip m) ''ERROR: the specified PASSWORD is incorrect.''))"
proof -
  have b: "\<forall>m \<in> set (split '' , ,'' (CHR '','')). strip m = []" by code_simp
  have p: "check_passwordstrings PasswordStrings [] ''ERROR: the specified PASSWORD is incorrect.''"
    by code_simp
  from check_passwordstrings_iff[of "'' , ,''" "''wrong password''" "[]"] b
  have 1: "\<not> check_passwordstrings '' , ,'' ''wrong password'' []" by blast
  from check_passwordstrings_iff[of PasswordStrings "[]" "''ERROR: the specified PASSWORD is incorrect.''"] p
  have 2: "\<exists>m \<in> set (split PasswordStrings (CHR '','')).
      strip m \<noteq> [] \<and>
      (occurs_ci (strip m) [] \<or> occurs_ci (strip m) ''ERROR: the specified PASSWORD is incorrect.'')"
    by blast
  from 1 p 2 show ?thesis by blast
qed

section \<open>Claims about the removal of records\<close>

text \<open>C6 (as amended). With the option \<open>NZBOP_TEMPDIR\<close> set and the temp folder
  present, \<open>clean_up\<close> lists the records in the temp folder. It sends the
  host one request for the jobs in the queue when more than one record is stored and the
  connection options are set, and none otherwise; with more than one record and a
  connection option missing it raises \<open>KeyError\<close> and removes nothing. After a request
  whose reply it can read, it removes every record whose job id is not among the ids read
  from the reply and also the record of the current job, and keeps the others. A request
  that fails is read as an empty reply, so every record is removed then. With one record
  or none it removes what is there, whatever the job. A record \<open>os.remove\<close> fails on
  stays. So with the jobs 1 and 2 reported and the records 1 to 4 stored, 3 and 4 are
  removed, and 1 and 2 are kept unless one of them is the current job's.\<close>

theorem clean_up_queries_and_removals:
  assumes "environ w ''NZBOP_TEMPDIR'' = Some tempdir" and "temp_folder s = Some entries"
  shows
    "queries (snd (clean_up w s)) =
       queries s @ (if 1 < length entries \<and> connection_known w
                    then [''listgroups?1=0''] else []) \<and>
     (1 < length entries \<and> \<not> connection_known w \<longrightarrow> clean_up w s = (Inl KeyError, s)) \<and>
     (\<forall>nzbids. 1 < length entries \<and> connection_known w \<and> reported w = Inr nzbids \<longrightarrow>
        fst (clean_up w s) = Inr () \<and>
        temp_folder (snd (clean_up w s)) =
          Some (filter (\<lambda>e. \<not> ((fst e \<notin> set nzbids \<or> environ w ''NZBPP_NZBID'' = Some (fst e))
                                \<and> \<not> undeletable w (fst e))) entries)) \<and>
     (http_get w ''listgroups?1=0'' = None \<longrightarrow> reported w = Inr []) \<and>
     (\<not> 1 < length entries \<longrightarrow>
        fst (clean_up w s) = Inr () \<and>
        temp_folder (snd (clean_up w s)) = Some (filter (\<lambda>e. undeletable w (fst e)) entries))"
proof (intro conjI allI impI)
  show "queries (snd (clean_up w s)) =
       queries s @ (if 1 < length entries \<and> connection_known w
                    then [''listgroups?1=0''] else [])"
    using clean_up_queries[OF assms] .
next
  assume "1 < length entries \<and> \<not> connection_known w"
  then show "clean_up w s = (Inl KeyError, s)"
    using clean_up_unconnected[OF assms] by blast
next
  fix nzbids
  assume a: "1 < length entries \<and> connection_known w \<and> reported w = Inr nzbids"
  then have c: "clean_up w s =
           (Inr (), remove_all w (tempdir @ ''/PasswordDetector'')
                      (old_temp_files w (map fst entries) nzbids (environ w ''NZBPP_NZBID''))
                      (s\<lparr>queries := queries s @ [''listgroups?1=0'']\<rparr>))"
    using clean_up_many[OF assms] by blast
  show "fst (clean_up w s) = Inr ()" by (simp add: c)
  have t: "temp_folder (s\<lparr>queries := queries s @ [''listgroups?1=0'']\<rparr>) = Some entries"
    using assms(2) by simp
  show "temp_folder (snd (clean_up w s)) =
          Some (filter (\<lambda>e. \<not> ((fst e \<notin> set nzbids \<or> environ w ''NZBPP_NZBID'' = Some (fst e))
                                \<and> \<not> undeletable w (fst e))) entries)"
    by (auto simp: c remove_all_folder[OF t] set_old_temp_files intro!: filter_cong)
next
  assume "http_get w ''listgroups?1=0'' = None"
  then show "reported w = Inr []" by (rule reported_silent)
next
  assume a: "\<not> 1 < length entries"
  have c: "clean_up w s =
           (Inr (), remove_all w (tempdir @ ''/PasswordDetector'')
                      (old_temp_files w (map fst entries) [] (environ w ''NZBPP_NZBID'')) s)"
    using clean_up_few[OF assms a] .
  show "fst (clean_up w s) = Inr ()" by (simp add: c)
  show "temp_folder (snd (clean_up w s)) = Some (filter (\<lambda>e. undeletable w (fst e)) entries)"
    by (auto simp: c remove_all_folder[OF assms(2)] set_old_temp_files intro!: filter_cong)
qed

text \<open>The amended C6 with the records 1 to 4 in the post-processing of job 3: with the
  jobs 1 and 2 reported, one request is sent and 1 and 2 are kept; with a host that does
  not answer, one request is sent and all four are removed; without connection options
  nothing is sent and nothing removed. On a single record no request is sent.\<close>

theorem clean_up_queries_and_removals_witness:
  "queries (snd (clean_up (janitor ''3'') four_records)) = [''listgroups?1=0''] \<and>
   fst (clean_up (janitor ''3'') four_records) = Inr () \<and>
   temp_folder (snd (clean_up (janitor ''3'') four_records))
     = Some [(''1'', ''a.rar'' @ [LF]), (''2'', [])] \<and>
   queries (snd (clean_up silent_host four_records)) = [''listgroups?1=0''] \<and>
   temp_folder (snd (clean_up silent_host four_records)) = Some [] \<and>
   clean_up no_connection four_records = (Inl KeyError, four_records) \<and>
   queries (snd (clean_up (janitor ''2'') record_of_job_2)) = [] \<and>
   temp_folder (snd (clean_up (janitor ''2'') record_of_job_2)) = Some []"
proof -
  have e: "environ (janitor j) ''NZBOP_TEMPDIR'' = Some ''/tmp''" for j
    by (simp add: janitor_def bare_def)
  have es: "environ silent_host ''NZBOP_TEMPDIR'' = Some ''/tmp''"
    by (simp add: silent_host_def janitor_def bare_def)
  have en: "environ no_connection ''NZBOP_TEMPDIR'' = Some ''/tmp''"
    by (simp add: no_connection_def janitor_def bare_def)
  have f: "temp_folder four_records =
      Some [(''1'', ''a.rar'' @ [LF]), (''2'', []), (''3'', ''b.rar'' @ [LF]), (''4'', [])]"
    by (simp add: four_records_def fresh_def)
  have f2: "temp_folder record_of_job_2 = Some [(''2'', ''a.rar'' @ [LF])]"
    by (simp add: record_of_job_2_def fresh_def)
  have q: "queries four_records = []" "queries record_of_job_2 = []"
    by (simp_all add: four_records_def record_of_job_2_def fresh_def)
  have k: "connection_known (janitor ''3'')" by code_simp
  have ks: "connection_known silent_host" by code_simp
  have kn: "\<not> connection_known no_connection" by code_simp
  have r: "reported (janitor ''3'') = Inr [''1'', ''2'']" by code_simp
  have hs: "http_get silent_host ''listgroups?1=0'' = None" by (simp add: silent_host_def)
  have fl: "filter (\<lambda>e. \<not> ((fst e \<notin> set [''1'', ''2''] \<or>
                environ (janitor ''3'') ''NZBPP_NZBID'' = Some (fst e))
              \<and> \<not> undeletable (janitor ''3'') (fst e)))
            [(''1'', ''a.rar'' @ [LF]), (''2'', []), (''3'', ''b.rar'' @ [LF]), (''4'', [])]
        = [(''1'', ''a.rar'' @ [LF]), (''2'', [])]"
    by code_simp
  have fls: "filter (\<lambda>e. \<not> ((fst e \<notin> set [] \<or>
                environ silent_host ''NZBPP_NZBID'' = Some (fst e))
              \<and> \<not> undeletable silent_host (fst e)))
            [(''1'', ''a.rar'' @ [LF]), (''2'', []), (''3'', ''b.rar'' @ [LF]), (''4'', [])]
        = []"
    by code_simp
  have fl2: "filter (\<lambda>e. undeletable (janitor ''2'') (fst e)) [(''2'', ''a.rar'' @ [LF])] = []"
    by code_simp
  note T = clean_up_queries_and_removals[OF e f, of "''3''"]
  note Ts = clean_up_queries_and_removals[OF es f]
  note Tn = clean_up_queries_and_removals[OF en f]
  note T2 = clean_up_queries_and_removals[OF e f2, of "''2''"]
  from T k have 1: "queries (snd (clean_up (janitor ''3'') four_records)) = [''listgroups?1=0'']"
    by (simp add: q)
  from T k r
  have "fst (clean_up (janitor ''3'') four_records) = Inr () \<and>
        temp_folder (snd (clean_up (janitor ''3'') four_records)) =
          Some (filter (\<lambda>e. \<not> ((fst e \<notin> set [''1'', ''2''] \<or>
                environ (janitor ''3'') ''NZBPP_NZBID'' = Some (fst e))
              \<and> \<not> undeletable (janitor ''3'') (fst e)))
            [(''1'', ''a.rar'' @ [LF]), (''2'', []), (''3'', ''b.rar'' @ [LF]), (''4'', [])])"
    by simp
  then have 2: "fst (clean_up (janitor ''3'') four_records) = Inr () \<and>
   temp_folder (snd (clean_up (janitor ''3'') four_records))
     = Some [(''1'', ''a.rar'' @ [LF]), (''2'', [])]"
    by (simp only: fl)
  from Ts ks have 3: "queries (snd (clean_up silent_host four_records)) = [''listgroups?1=0'']"
    by (simp add: q)
  from Ts hs have rs: "reported silent_host = Inr []" by blast
  from Ts ks rs
  have "temp_folder (snd (clean_up silent_host four_records)) =
          Some (filter (\<lambda>e. \<not> ((fst e \<notin> set [] \<or>
                environ silent_host ''NZBPP_NZBID'' = Some (fst e))
              \<and> \<not> undeletable silent_host (fst e)))
            [(''1'', ''a.rar'' @ [LF]), (''2'', []), (''3'', ''b.rar'' @ [LF]), (''4'', [])])"
    by simp
  then have 4: "temp_folder (snd (clean_up silent_host four_records)) = Some []"
    by (simp only: fls)
  from Tn kn have 5: "clean_up no_connection four_records = (Inl KeyError, four_records)"
    by simp
  from T2 have "queries (snd (clean_up (janitor ''2'') record_of_job_2)) = [] \<and>
   temp_folder (snd (clean_up (janitor ''2'') record_of_job_2)) =
     Some (filter (\<lambda>e. undeletable (janitor ''2'') (fst e)) [(''2'', ''a.rar'' @ [LF])])"
    by (simp add: q)
  then have 6: "queries (snd (clean_up (janitor ''2'') record_of_job_2)) = [] \<and>
   temp_folder (snd (clean_up (janitor ''2'') record_of_job_2)) = Some []"
    by (simp only: fl2)
  from 1 2 3 4 5 6 show ?thesis by blast
qed

text \<open>C6 as stated fails. With the jobs 1 and 2 in the queue and the records 1 to 4
  stored, \<open>clean_up\<close> in the post-processing of job 1 removes the record of job 1 as well:
  only that of job 2 is kept. And with four records stored and no connection options in
  the environment no request is sent to the host and no record is removed.\<close>

theorem clean_up_example_fails:
  "reported (janitor ''1'') = Inr [''1'', ''2''] \<and>
   clean_up (janitor ''1'') four_records =
     (Inr (), fresh\<lparr>printed := [''[DETAIL] Removing temp file /tmp/PasswordDetector/3'',
                               ''[DETAIL] Removing temp file /tmp/PasswordDetector/4'',
                               ''[DETAIL] Removing temp file /tmp/PasswordDetector/1''],
                    temp_folder := Some [(''2'', [])],
                    queries := [''listgroups?1=0'']\<rparr>) \<and>
   clean_up no_connection four_records = (Inl KeyError, four_records) \<and>
   queries four_records = [] \<and>
   temp_folder four_records =
     Some [(''1'', ''a.rar'' @ [LF]), (''2'', []), (''3'', ''b.rar'' @ [LF]), (''4'', [])]"
  by code_simp

text \<open>C10. When the temp folder holds exactly one record, \<open>clean_up\<close> does not call the
  host; it calls \<open>os.remove\<close> on that record whatever the current job is and whatever the
  host would report, and the record is gone unless \<open>os.remove\<close> itself fails.\<close>

theorem lone_record_is_removed_unasked:
  assumes "environ w ''NZBOP_TEMPDIR'' = Some tempdir" and "temp_folder s = Some [(n, c)]"
  shows "fst (clean_up w s) = Inr () \<and>
     queries (snd (clean_up w s)) = queries s \<and>
     printed (snd (clean_up w s)) =
       printed s @ (''[DETAIL] Removing temp file '' @ tempdir @ ''/PasswordDetector/'' @ n) #
         (if undeletable w n
          then [''[ERROR] Could not remove temp file '' @ tempdir @ ''/PasswordDetector/'' @ n]
          else []) \<and>
     temp_folder (snd (clean_up w s)) = Some (if undeletable w n then [(n, c)] else [])"
proof -
  have o: "old_temp_files w [n] [] (environ w ''NZBPP_NZBID'') = [n]"
    by (simp add: old_temp_files_def set_minus_def Let_def split: option.splits)
  have "clean_up w s = (Inr (), remove_all w (tempdir @ ''/PasswordDetector'') [n] s)"
    using clean_up_few[OF assms] o by simp
  then show ?thesis using assms(2) by (simp add: Let_def py_print_def)
qed

text \<open>C10 on the record of job 2, which is still in the queue, in the post-processing
  of job 7.\<close>

theorem lone_record_is_removed_unasked_witness:
  "reported (janitor ''7'') = Inr [''1'', ''2''] \<and>
   fst (clean_up (janitor ''7'') record_of_job_2) = Inr () \<and>
   queries (snd (clean_up (janitor ''7'') record_of_job_2)) = [] \<and>
   printed (snd (clean_up (janitor ''7'') record_of_job_2))
     = [''[DETAIL] Removing temp file /tmp/PasswordDetector/2''] \<and>
   temp_folder (snd (clean_up (janitor ''7'') record_of_job_2)) = Some []"
proof -
  have e: "environ (janitor ''7'') ''NZBOP_TEMPDIR'' = Some ''/tmp''"
    by (simp add: janitor_def bare_def)
  have f: "temp_folder record_of_job_2 = Some [(''2'', ''a.rar'' @ [LF])]"
    by (simp add: record_of_job_2_def fresh_def)
  have q: "queries record_of_job_2 = []" "printed record_of_job_2 = []"
    by (simp_all add: record_of_job_2_def fresh_def)
  have u: "\<not> undeletable (janitor ''7'') ''2''" by (simp add: janitor_def bare_def)
  have r: "reported (janitor ''7'') = Inr [''1'', ''2'']" by code_simp
  from lone_record_is_removed_unasked[OF e f] q u r show ?thesis by simp
qed

section \<open>Claims about the choice of the part to move\<close>

text \<open>The example of the specification: of the parts 2, 10 and 1 the file with id 5 is
  moved to the top.\<close>

lemma highest_part_is_moved_to_the_top:
  "edits (snd (sort_inner_files
      (added [(2, ''a.part02.rar''), (5, ''a.part10.rar''), (9, ''a.r1'')]) fresh))
     = [(''FileMoveTop'', 5)]"
  by code_simp

text \<open>C3 fails on the code. The host lists \<open>a.r00\<close> with id 1 and then \<open>b.r00\<close> with id 2.
  Both have the number 0, the greatest of the listing, so the claim selects the first,
  id 1. The script asks the host to move id 2: after the first file \<open>file_num\<close> is 0, and
  \<open>not file_num\<close> is true for 0 as it is for \<open>None\<close>, so the later file overwrites the
  selection.\<close>

theorem later_part_with_number_zero_wins:
  "sort_inner_files (added [(1, ''a.r00''), (2, ''b.r00'')]) fresh =
     (Inr (), fresh\<lparr>printed := [''[INFO] Moving last rar-file to the top: b.r00''],
                    queries := [''listfiles?1=0&2=0&3=7''],
                    edits := [(''FileMoveTop'', 2)]\<rparr>)"
  by code_simp

section \<open>Claims about the script as a whole\<close>

text \<open>C2 fails on the code. Job 7 carries the mark of an earlier positive run and was
  downloaded again; its directory holds one clean archive that was never probed. The
  claim, like the comment in \<open>main\<close> above the line that clears the mark, has this
  invocation probe the file, find no password and clear the mark. The script prints that
  the password was found previously and that detection is skipped, and exits from
  \<open>start_check\<close>: the file is not probed and the line that clears the mark is not
  printed. The same job without the mark is probed and found clean.\<close>

theorem marked_clean_job_is_not_probed:
  "script (redownloaded True) fresh =
     (SystemExit 93,
      fresh\<lparr>printed := [''[DETAIL] Password previously found, skipping detection'']\<rparr>) \<and>
   listdir (redownloaded True) ''/dl/job'' = Some [''a.rar''] \<and>
   \<not> positive (redownloaded True) ''/dl/job'' ''a.rar'' \<and>
   script (redownloaded False) fresh =
     (SystemExit 93,
      fresh\<lparr>printed := [''[DETAIL] Detecting password for job'',
                        ''[DETAIL] Created folder /tmp/PasswordDetector'',
                        ''[DETAIL] Created temp file /tmp/PasswordDetector/7'',
                        ''[DETAIL] Detecting completed for job'',
                        ''[DETAIL] Removing temp file /tmp/PasswordDetector/7''],
             temp_folder := Some [],
             probed := [''/dl/job/a.rar'']\<rparr>)"
  by code_simp

end
